theory Spec2Isabelle
  imports Main
begin

section \<open>Strings\<close>

text \<open>
  Go strings are byte sequences; they are modelled as \<open>string\<close> (a list of 8-bit
  characters). \<open>strings.TrimSpace\<close> removes the leading and the trailing runes for which
  \<open>unicode.IsSpace\<close> holds. A rune decoded from UTF-8 is such a white-space rune exactly
  when the bytes are one ASCII white-space byte or the (only, canonical) encoding of
  U+0085, U+00A0, U+1680, U+2000..U+200A, U+2028, U+2029, U+202F, U+205F or U+3000;
  every other byte sequence, valid or not, decodes to a rune that is not white space.
\<close>

definition asciiSpace :: "char \<Rightarrow> bool" where
  "asciiSpace c \<longleftrightarrow>
     c = CHR 0x09 \<or> c = CHR 0x0A \<or> c = CHR 0x0B \<or> c = CHR 0x0C \<or> c = CHR 0x0D \<or> c = CHR 0x20"

definition space2 :: "char \<Rightarrow> char \<Rightarrow> bool" where
  "space2 a b \<longleftrightarrow> a = CHR 0xC2 \<and> (b = CHR 0x85 \<or> b = CHR 0xA0)"

definition space3 :: "char \<Rightarrow> char \<Rightarrow> char \<Rightarrow> bool" where
  "space3 a b c \<longleftrightarrow>
     (a = CHR 0xE1 \<and> b = CHR 0x9A \<and> c = CHR 0x80) \<or>
     (a = CHR 0xE2 \<and> b = CHR 0x80 \<and>
        ((0x80 \<le> (of_char c :: nat) \<and> (of_char c :: nat) \<le> 0x8A) \<or>
         c = CHR 0xA8 \<or> c = CHR 0xA9 \<or> c = CHR 0xAF)) \<or>
     (a = CHR 0xE2 \<and> b = CHR 0x81 \<and> c = CHR 0x9F) \<or>
     (a = CHR 0xE3 \<and> b = CHR 0x80 \<and> c = CHR 0x80)"

fun trimLeft :: "string \<Rightarrow> string" where
  "trimLeft (a # b # c # cs) =
     (if asciiSpace a then trimLeft (b # c # cs)
      else if space2 a b then trimLeft (c # cs)
      else if space3 a b c then trimLeft cs
      else a # b # c # cs)"
| "trimLeft [a, b] =
     (if asciiSpace a then trimLeft [b]
      else if space2 a b then []
      else [a, b])"
| "trimLeft [a] = (if asciiSpace a then [] else [a])"
| "trimLeft [] = []"

text \<open>The same scan from the end, on the reversed string (last byte first).\<close>

fun trimRightRev :: "string \<Rightarrow> string" where
  "trimRightRev (c # b # a # cs) =
     (if asciiSpace c then trimRightRev (b # a # cs)
      else if space2 b c then trimRightRev (a # cs)
      else if space3 a b c then trimRightRev cs
      else c # b # a # cs)"
| "trimRightRev [c, b] =
     (if asciiSpace c then trimRightRev [b]
      else if space2 b c then []
      else [c, b])"
| "trimRightRev [c] = (if asciiSpace c then [] else [c])"
| "trimRightRev [] = []"

definition TrimSpace :: "string \<Rightarrow> string" where
  "TrimSpace s = rev (trimRightRev (rev (trimLeft s)))"

section \<open>Data model\<close>

datatype json =
    JNull
  | JBool bool
  | JNumber string
  | JString string
  | JArray "json list"
  | JObject "(string \<times> json) list"

text \<open>
  A \<open>json.RawMessage\<close> is a byte slice; the model holds what the JSON decoder makes of
  it: \<open>None\<close> when the bytes are not one valid JSON value, otherwise the value.
\<close>

type_synonym RawMessage = "json option"

type_synonym Role = string

definition RoleSystem :: Role where "RoleSystem = ''system''"
definition RoleUser :: Role where "RoleUser = ''user''"
definition RoleAssistant :: Role where "RoleAssistant = ''assistant''"

record Message =
  Role :: Role
  Content :: string
  Name :: string
  Meta :: RawMessage

record ExportOptions =
  Type :: string
  DatasetID :: int
  Split :: string
  Status :: string
  IncludeSystem :: bool
  Context :: string
  ContextTurns :: int
  RoleStyle :: string
  MaxExamples :: int

record ExportPair =
  User :: string
  Assistant :: string

section \<open>Pair derivation\<close>

text \<open>
  Indexing a slice out of range panics in Go. \<open>msgAt\<close> is \<open>msgs[j]\<close>; \<open>None\<close> is the
  panic, and every function below that indexes returns an option for that reason.
  Go's \<open>int\<close> is modelled as an unbounded integer: every counter below is bounded by the
  length of a slice.
\<close>

definition msgAt :: "Message list \<Rightarrow> int \<Rightarrow> Message option" where
  "msgAt msgs j = (if 0 \<le> j \<and> j < int (length msgs) then Some (msgs ! nat j) else None)"

function findPrevRole :: "Message list \<Rightarrow> int \<Rightarrow> Role \<Rightarrow> int option" where
  "findPrevRole msgs j role =
     (if j \<ge> 0 then
        (case msgAt msgs j of
           None \<Rightarrow> None
         | Some m \<Rightarrow> if Role m = role then Some j else findPrevRole msgs (j - 1) role)
      else Some (- 1))"
  by pat_completeness auto
termination
  by (relation "measure (\<lambda>(msgs, j, role). nat (j + 1))") auto

definition roleLabel :: "Role \<Rightarrow> string" where
  "roleLabel r =
     (if r = RoleSystem then ''System: ''
      else if r = RoleAssistant then ''Assistant: ''
      else ''User: '')"

text \<open>The backward walk of \<open>renderContext\<close>: the value of \<open>j\<close> when the loop is left.\<close>

function turnsLoop :: "Message list \<Rightarrow> int \<Rightarrow> int \<Rightarrow> int \<Rightarrow> int option" where
  "turnsLoop msgs contextTurns turns j =
     (if j \<ge> 0 then
        (case msgAt msgs j of
           None \<Rightarrow> None
         | Some m \<Rightarrow>
             if Role m = RoleUser then
               (if turns + 1 \<ge> contextTurns then Some j
                else turnsLoop msgs contextTurns (turns + 1) (j - 1))
             else turnsLoop msgs contextTurns turns (j - 1))
      else Some j)"
  by pat_completeness auto
termination
  by (relation "measure (\<lambda>(msgs, contextTurns, turns, j). nat (j + 1))") auto

text \<open>The rendering loop; \<open>b\<close> is the content of the \<open>strings.Builder\<close>.\<close>

function renderLoop ::
  "Message list \<Rightarrow> int \<Rightarrow> bool \<Rightarrow> string \<Rightarrow> int \<Rightarrow> string \<Rightarrow> string option" where
  "renderLoop msgs userIdx includeSystem roleStyle i b =
     (if i \<le> userIdx then
        (case msgAt msgs i of
           None \<Rightarrow> None
         | Some m \<Rightarrow>
             if Role m = RoleSystem \<and> \<not> includeSystem then
               renderLoop msgs userIdx includeSystem roleStyle (i + 1) b
             else if TrimSpace (Content m) = [] then
               renderLoop msgs userIdx includeSystem roleStyle (i + 1) b
             else
               renderLoop msgs userIdx includeSystem roleStyle (i + 1)
                 ((if length b > 0 then b @ [CHR 0x0A] else b) @
                  (if roleStyle = ''plain'' then TrimSpace (Content m)
                   else roleLabel (Role m) @ TrimSpace (Content m))))
      else Some b)"
  by pat_completeness auto
termination
  by (relation "measure (\<lambda>(msgs, userIdx, includeSystem, roleStyle, i, b). nat (userIdx + 1 - i))")
     auto

definition renderContext ::
  "Message list \<Rightarrow> int \<Rightarrow> bool \<Rightarrow> int \<Rightarrow> string \<Rightarrow> string option" where
  "renderContext msgs userIdx includeSystem contextTurns roleStyle =
     (case (if contextTurns > 0 then
              (case turnsLoop msgs contextTurns 0 userIdx of
                 None \<Rightarrow> None
               | Some j \<Rightarrow> Some (if j > 0 then j else 0))
            else Some 0) of
        None \<Rightarrow> None
      | Some start \<Rightarrow> renderLoop msgs userIdx includeSystem roleStyle start [])"

text \<open>The \<open>switch contextMode\<close> of \<open>derivePairs\<close>.\<close>

definition promptFor ::
  "Message list \<Rightarrow> ExportOptions \<Rightarrow> string \<Rightarrow> string \<Rightarrow> int \<Rightarrow> string option" where
  "promptFor msgs opts contextMode roleStyle userIdx =
     (if contextMode = ''none'' then
        map_option (\<lambda>m. TrimSpace (Content m)) (msgAt msgs userIdx)
      else if contextMode = ''window'' then
        renderContext msgs userIdx (IncludeSystem opts) (ContextTurns opts) roleStyle
      else if contextMode = ''full'' then
        renderContext msgs userIdx (IncludeSystem opts) 0 roleStyle
      else map_option (\<lambda>m. TrimSpace (Content m)) (msgAt msgs userIdx))"

text \<open>
  One iteration of the loop of \<open>derivePairs\<close>: \<open>Some []\<close> is a \<open>continue\<close>,
  \<open>Some [p]\<close> the pair appended, \<open>None\<close> a panic.
\<close>

definition derivePairsStep ::
  "Message list \<Rightarrow> ExportOptions \<Rightarrow> string \<Rightarrow> string \<Rightarrow> int \<Rightarrow> ExportPair list option" where
  "derivePairsStep msgs opts contextMode roleStyle i =
     (case msgAt msgs i of
        None \<Rightarrow> None
      | Some m \<Rightarrow>
          if Role m \<noteq> RoleAssistant then Some []
          else if TrimSpace (Content m) = [] then Some []
          else
            (case findPrevRole msgs (i - 1) RoleUser of
               None \<Rightarrow> None
             | Some userIdx \<Rightarrow>
                 if userIdx < 0 then Some []
                 else
                   (case promptFor msgs opts contextMode roleStyle userIdx of
                      None \<Rightarrow> None
                    | Some prompt \<Rightarrow>
                        if prompt = [] then Some []
                        else Some [\<lparr>User = prompt, Assistant = TrimSpace (Content m)\<rparr>])))"

function derivePairsLoop ::
  "Message list \<Rightarrow> ExportOptions \<Rightarrow> string \<Rightarrow> string \<Rightarrow> int \<Rightarrow> ExportPair list
     \<Rightarrow> ExportPair list option" where
  "derivePairsLoop msgs opts contextMode roleStyle i pairs =
     (if i < int (length msgs) then
        (case derivePairsStep msgs opts contextMode roleStyle i of
           None \<Rightarrow> None
         | Some ps \<Rightarrow> derivePairsLoop msgs opts contextMode roleStyle (i + 1) (pairs @ ps))
      else Some pairs)"
  by pat_completeness auto
termination
  by (relation "measure (\<lambda>(msgs, opts, contextMode, roleStyle, i, pairs). nat (int (length msgs) - i))")
     auto

definition derivePairs :: "Message list \<Rightarrow> ExportOptions \<Rightarrow> ExportPair list option" where
  "derivePairs msgs opts =
     derivePairsLoop msgs opts
       (if Context opts = [] then ''none'' else Context opts)
       (if RoleStyle opts = [] then ''labels'' else RoleStyle opts)
       0 []"

section \<open>Item pair derivation\<close>

text \<open>
  \<open>json.Unmarshal\<close> into a \<open>map[string]json.RawMessage\<close>: an object gives its
  members (a later duplicate key overwrites an earlier one, so a lookup finds the last
  binding), \<open>null\<close> leaves the map nil, every other value and invalid input is an error.
\<close>

definition unmarshalObject :: "RawMessage \<Rightarrow> (string \<times> json) list option" where
  "unmarshalObject data =
     (case data of
        None \<Rightarrow> None
      | Some JNull \<Rightarrow> Some []
      | Some (JObject kvs) \<Rightarrow> Some kvs
      | Some _ \<Rightarrow> None)"

definition lookupKey :: "(string \<times> json) list \<Rightarrow> string \<Rightarrow> json option" where
  "lookupKey kvs k = map_of (rev kvs) k"

text \<open>
  \<open>json.Unmarshal\<close> into a string variable holding \<open>cur\<close>: a JSON string is stored,
  \<open>null\<close> leaves the variable as it is, any other value is a type error.
\<close>

fun unmarshalString :: "json \<Rightarrow> string \<Rightarrow> string option" where
  "unmarshalString (JString s) cur = Some s"
| "unmarshalString JNull cur = Some cur"
| "unmarshalString (JBool b) cur = None"
| "unmarshalString (JNumber n) cur = None"
| "unmarshalString (JArray xs) cur = None"
| "unmarshalString (JObject kvs) cur = None"

text \<open>
  Decoding into the struct \<open>Message\<close>: the members are taken in order, a key selects
  the field whose JSON name it equals up to ASCII case, unknown keys are skipped. A type
  error in any member makes \<open>Unmarshal\<close> return an error, and \<open>derivePairsFromItemData\<close>
  drops the partial result then.
\<close>

definition asciiLower :: "char \<Rightarrow> char" where
  "asciiLower c =
     (if 65 \<le> (of_char c :: nat) \<and> (of_char c :: nat) \<le> 90
      then char_of ((of_char c :: nat) + 32) else c)"

definition fieldMatch :: "string \<Rightarrow> string \<Rightarrow> bool" where
  "fieldMatch name key \<longleftrightarrow> map asciiLower key = name"

definition setMessageField :: "Message \<Rightarrow> string \<times> json \<Rightarrow> Message option" where
  "setMessageField m kv =
     (if fieldMatch ''role'' (fst kv) then
        map_option (\<lambda>s. m\<lparr>Role := s\<rparr>) (unmarshalString (snd kv) (Role m))
      else if fieldMatch ''content'' (fst kv) then
        map_option (\<lambda>s. m\<lparr>Content := s\<rparr>) (unmarshalString (snd kv) (Content m))
      else if fieldMatch ''name'' (fst kv) then
        map_option (\<lambda>s. m\<lparr>Name := s\<rparr>) (unmarshalString (snd kv) (Name m))
      else if fieldMatch ''meta'' (fst kv) then Some (m\<lparr>Meta := Some (snd kv)\<rparr>)
      else Some m)"

fun decodeFields :: "Message \<Rightarrow> (string \<times> json) list \<Rightarrow> Message option" where
  "decodeFields m [] = Some m"
| "decodeFields m (kv # kvs) =
     (case setMessageField m kv of
        None \<Rightarrow> None
      | Some m' \<Rightarrow> decodeFields m' kvs)"

definition zeroMessage :: Message where
  "zeroMessage = \<lparr>Role = [], Content = [], Name = [], Meta = None\<rparr>"

fun unmarshalMessage :: "json \<Rightarrow> Message option" where
  "unmarshalMessage JNull = Some zeroMessage"
| "unmarshalMessage (JObject kvs) = decodeFields zeroMessage kvs"
| "unmarshalMessage (JBool b) = None"
| "unmarshalMessage (JNumber n) = None"
| "unmarshalMessage (JString s) = None"
| "unmarshalMessage (JArray xs) = None"

fun unmarshalElems :: "json list \<Rightarrow> Message list option" where
  "unmarshalElems [] = Some []"
| "unmarshalElems (x # xs) =
     (case unmarshalMessage x of
        None \<Rightarrow> None
      | Some m \<Rightarrow> map_option (\<lambda>ms. m # ms) (unmarshalElems xs))"

fun unmarshalMessages :: "json \<Rightarrow> Message list option" where
  "unmarshalMessages JNull = Some []"
| "unmarshalMessages (JArray xs) = unmarshalElems xs"
| "unmarshalMessages (JBool b) = None"
| "unmarshalMessages (JNumber n) = None"
| "unmarshalMessages (JString s) = None"
| "unmarshalMessages (JObject kvs) = None"

text \<open>
  The first block of \<open>derivePairsFromItemData\<close>: the pair it returns, or \<open>None\<close> when
  control falls through to the multi-turn block.
\<close>

definition singleTurn :: "(string \<times> json) list \<Rightarrow> ExportPair option" where
  "singleTurn obj =
     (case lookupKey obj ''user'' of
        None \<Rightarrow> None
      | Some uRaw \<Rightarrow>
          (case lookupKey obj ''assistant'' of
             None \<Rightarrow> None
           | Some aRaw \<Rightarrow>
               (case unmarshalString uRaw [] of
                  None \<Rightarrow> None
                | Some u \<Rightarrow>
                    (case unmarshalString aRaw [] of
                       None \<Rightarrow> None
                     | Some a \<Rightarrow>
                         if TrimSpace u \<noteq> [] \<and> TrimSpace a \<noteq> []
                         then Some \<lparr>User = TrimSpace u, Assistant = TrimSpace a\<rparr>
                         else None))))"

definition derivePairsFromItemData :: "RawMessage \<Rightarrow> ExportOptions \<Rightarrow> ExportPair list option" where
  "derivePairsFromItemData data opts =
     (case unmarshalObject data of
        None \<Rightarrow> Some []
      | Some obj \<Rightarrow>
          (case singleTurn obj of
             Some p \<Rightarrow> Some [p]
           | None \<Rightarrow>
               (case lookupKey obj ''messages'' of
                  None \<Rightarrow> Some []
                | Some mRaw \<Rightarrow>
                    (case unmarshalMessages mRaw of
                       None \<Rightarrow> Some []
                     | Some msgs \<Rightarrow>
                         if length msgs = 0 then Some [] else derivePairs msgs opts))))"

section \<open>Record source\<close>

text \<open>
  The database is a record of its tables, each a list of rows, and a query is the list
  of rows it selects, in its order. Storage and sink are taken to be reliable: a query,
  a scan of a row, \<open>rows.Err\<close> and a write to the sink never fail, so the branches
  \<open>if err != nil { return err }\<close> that follow them are never taken and are left out.
  The errors of the model are those the export code itself raises, the missing dataset
  of \<open>GetDataset\<close>, and the error of the JSON encoder on a value it cannot marshal.
\<close>

record dataset_row =
  d_id :: int
  d_kind :: string

record conversation_row =
  c_id :: int
  c_dataset_id :: int
  c_split :: string
  c_status :: string
  c_tags :: RawMessage
  c_source :: string
  c_notes :: string

record message_row =
  cm_conversation_id :: int
  cm_idx :: int
  cm_role :: string
  cm_name :: string
  cm_content :: string
  cm_meta :: RawMessage

record item_row =
  di_id :: int
  di_dataset_id :: int
  di_source_ref :: string
  di_data :: RawMessage

record DB =
  datasets :: "dataset_row list"
  conversations :: "conversation_row list"
  conversation_messages :: "message_row list"
  dataset_items :: "item_row list"

datatype error =
    ErrNotFound
  | ErrUnknownExportType string
  | ErrUnknownItemsExportType string
  | ErrDatasetIDRequired
  | ErrMarshal

definition GetDataset :: "DB \<Rightarrow> int \<Rightarrow> error + dataset_row" where
  "GetDataset db ident =
     (case filter (\<lambda>d. d_id d = ident) (datasets db) of
        [] \<Rightarrow> Inl ErrNotFound
      | d # _ \<Rightarrow> Inr d)"

definition loadMessages :: "DB \<Rightarrow> int \<Rightarrow> Message list" where
  "loadMessages db conversationID =
     map (\<lambda>r. \<lparr>Role = cm_role r, Content = cm_content r, Name = cm_name r, Meta = cm_meta r\<rparr>)
       (sort_key cm_idx
          (filter (\<lambda>r. cm_conversation_id r = conversationID) (conversation_messages db)))"

text \<open>The rows the query of \<open>conversationsFilterQuery\<close> selects, in its order.\<close>

definition conversationsFilterQuery :: "DB \<Rightarrow> ExportOptions \<Rightarrow> conversation_row list" where
  "conversationsFilterQuery db opts =
     sort_key c_id
       (filter (\<lambda>c. c_status c = Status opts
                  \<and> (if DatasetID opts > 0 then c_dataset_id c = DatasetID opts else True)
                  \<and> (if Split opts \<noteq> [] \<and> Split opts \<noteq> ''all'' then c_split c = Split opts
                      else True))
          (conversations db))"

definition datasetItemsQuery :: "DB \<Rightarrow> int \<Rightarrow> item_row list" where
  "datasetItemsQuery db datasetID =
     sort_key di_id (filter (\<lambda>r. di_dataset_id r = datasetID) (dataset_items db))"

section \<open>Export coordinator\<close>

text \<open>
  The sink is the list of records written so far; the byte encoding of a record is not
  modelled. The buffered writer is flushed on every return, so what a function has
  encoded is what the sink holds afterwards.

  \<open>enc.Encode\<close> marshals its argument before it writes anything, and fails when
  the argument holds a \<open>json.RawMessage\<close> that is not valid JSON. A pair holds
  strings only and always marshals. In a conversation object the \<open>meta\<close> of a
  message is marshalled with \<open>omitempty\<close>: a \<open>Meta\<close> of \<open>None\<close> there is the empty
  slice, which is left out (the \<open>meta\<close> column is JSONB and never holds other invalid
  bytes). The \<open>data\<close> of an item with meta is marshalled as it is, so the encoder
  fails on a row whose data is not valid JSON and nothing is written for that row.
\<close>

datatype outrec =
    OutPair ExportPair
  | OutConversation int string string "string list" string string "Message list"
  | OutItem RawMessage
  | OutItemWithMeta int int string RawMessage

text \<open>\<open>json.Unmarshal(tagsRaw, &tags)\<close> with the error ignored.\<close>

fun tagOf :: "json \<Rightarrow> string" where
  "tagOf (JString s) = s"
| "tagOf JNull = []"
| "tagOf (JBool b) = []"
| "tagOf (JNumber n) = []"
| "tagOf (JArray xs) = []"
| "tagOf (JObject kvs) = []"

definition unmarshalTags :: "RawMessage \<Rightarrow> string list" where
  "unmarshalTags tagsRaw =
     (case tagsRaw of
        Some (JArray xs) \<Rightarrow> map tagOf xs
      | _ \<Rightarrow> [])"

definition conversationObject :: "DB \<Rightarrow> conversation_row \<Rightarrow> outrec" where
  "conversationObject db row =
     OutConversation (c_id row) (c_split row) (c_status row) (unmarshalTags (c_tags row))
       (c_source row) (c_notes row) (loadMessages db (c_id row))"

fun streamConversationsRows ::
  "DB \<Rightarrow> ExportOptions \<Rightarrow> conversation_row list \<Rightarrow> int \<Rightarrow> outrec list
     \<Rightarrow> error option \<times> outrec list" where
  "streamConversationsRows db opts [] count w = (None, w)"
| "streamConversationsRows db opts (row # rows) count w =
     (if MaxExamples opts > 0 \<and> count + 1 \<ge> MaxExamples opts
      then (None, w @ [conversationObject db row])
      else streamConversationsRows db opts rows (count + 1) (w @ [conversationObject db row]))"

definition streamConversations :: "DB \<Rightarrow> outrec list \<Rightarrow> ExportOptions \<Rightarrow> error option \<times> outrec list" where
  "streamConversations db w opts =
     streamConversationsRows db opts (conversationsFilterQuery db opts) 0 w"

fun streamItemsRawRows ::
  "ExportOptions \<Rightarrow> item_row list \<Rightarrow> int \<Rightarrow> outrec list \<Rightarrow> error option \<times> outrec list" where
  "streamItemsRawRows opts [] count w = (None, w)"
| "streamItemsRawRows opts (row # rows) count w =
     (if MaxExamples opts > 0 \<and> count + 1 \<ge> MaxExamples opts
      then (None, w @ [OutItem (di_data row)])
      else streamItemsRawRows opts rows (count + 1) (w @ [OutItem (di_data row)]))"

definition streamDatasetItemsRaw ::
  "DB \<Rightarrow> outrec list \<Rightarrow> ExportOptions \<Rightarrow> error option \<times> outrec list" where
  "streamDatasetItemsRaw db w opts =
     (if DatasetID opts \<le> 0 then (Some ErrDatasetIDRequired, w)
      else streamItemsRawRows opts (datasetItemsQuery db (DatasetID opts)) 0 w)"

definition itemWithMeta :: "item_row \<Rightarrow> outrec" where
  "itemWithMeta row = OutItemWithMeta (di_id row) (di_dataset_id row) (di_source_ref row) (di_data row)"

fun streamItemsWithMetaRows ::
  "ExportOptions \<Rightarrow> item_row list \<Rightarrow> int \<Rightarrow> outrec list \<Rightarrow> error option \<times> outrec list" where
  "streamItemsWithMetaRows opts [] count w = (None, w)"
| "streamItemsWithMetaRows opts (row # rows) count w =
     (if di_data row = None then (Some ErrMarshal, w)
      else if MaxExamples opts > 0 \<and> count + 1 \<ge> MaxExamples opts
      then (None, w @ [itemWithMeta row])
      else streamItemsWithMetaRows opts rows (count + 1) (w @ [itemWithMeta row]))"

definition streamDatasetItemsWithMeta ::
  "DB \<Rightarrow> outrec list \<Rightarrow> ExportOptions \<Rightarrow> error option \<times> outrec list" where
  "streamDatasetItemsWithMeta db w opts =
     (if DatasetID opts \<le> 0 then (Some ErrDatasetIDRequired, w)
      else streamItemsWithMetaRows opts (datasetItemsQuery db (DatasetID opts)) 0 w)"

text \<open>
  The inner loop \<open>for _, p := range pairs\<close> of the two pair streams. The flag of the
  result says that the loop left the function by \<open>return nil\<close>.
\<close>

fun encodePairs ::
  "ExportOptions \<Rightarrow> ExportPair list \<Rightarrow> int \<Rightarrow> outrec list \<Rightarrow> bool \<times> int \<times> outrec list" where
  "encodePairs opts [] count w = (False, count, w)"
| "encodePairs opts (p # ps) count w =
     (if MaxExamples opts > 0 \<and> count + 1 \<ge> MaxExamples opts
      then (True, count + 1, w @ [OutPair p])
      else encodePairs opts ps (count + 1) (w @ [OutPair p]))"

text \<open>In the streams that derive pairs, \<open>None\<close> is a panic of the derivation.\<close>

fun streamPairsRows ::
  "DB \<Rightarrow> ExportOptions \<Rightarrow> conversation_row list \<Rightarrow> int \<Rightarrow> outrec list
     \<Rightarrow> (error option \<times> outrec list) option" where
  "streamPairsRows db opts [] count w = Some (None, w)"
| "streamPairsRows db opts (row # rows) count w =
     (case derivePairs (loadMessages db (c_id row)) opts of
        None \<Rightarrow> None
      | Some pairs \<Rightarrow>
          (case encodePairs opts pairs count w of
             (returned, count', w') \<Rightarrow>
               if returned then Some (None, w')
               else streamPairsRows db opts rows count' w'))"

definition streamPairs ::
  "DB \<Rightarrow> outrec list \<Rightarrow> ExportOptions \<Rightarrow> (error option \<times> outrec list) option" where
  "streamPairs db w opts = streamPairsRows db opts (conversationsFilterQuery db opts) 0 w"

fun streamItemPairsRows ::
  "ExportOptions \<Rightarrow> item_row list \<Rightarrow> int \<Rightarrow> outrec list
     \<Rightarrow> (error option \<times> outrec list) option" where
  "streamItemPairsRows opts [] count w = Some (None, w)"
| "streamItemPairsRows opts (row # rows) count w =
     (case derivePairsFromItemData (di_data row) opts of
        None \<Rightarrow> None
      | Some pairs \<Rightarrow>
          (case encodePairs opts pairs count w of
             (returned, count', w') \<Rightarrow>
               if returned then Some (None, w')
               else streamItemPairsRows opts rows count' w'))"

definition streamPairsFromDatasetItems ::
  "DB \<Rightarrow> outrec list \<Rightarrow> ExportOptions \<Rightarrow> (error option \<times> outrec list) option" where
  "streamPairsFromDatasetItems db w opts =
     (if DatasetID opts \<le> 0 then Some (Some ErrDatasetIDRequired, w)
      else streamItemPairsRows opts (datasetItemsQuery db (DatasetID opts)) 0 w)"

definition streamDatasetItems ::
  "DB \<Rightarrow> outrec list \<Rightarrow> ExportOptions \<Rightarrow> (error option \<times> outrec list) option" where
  "streamDatasetItems db w opts =
     (if Type opts = ''pairs'' then streamPairsFromDatasetItems db w opts
      else if Type opts = ''items'' then Some (streamDatasetItemsRaw db w opts)
      else if Type opts = ''items_with_meta'' then Some (streamDatasetItemsWithMeta db w opts)
      else Some (Some (ErrUnknownItemsExportType (Type opts)), w))"

text \<open>
  \<open>strings.EqualFold(s, "items")\<close>: equality under Unicode simple case folding. The
  letters i, t, e and m fold only with their ASCII capitals; s folds with S and with
  U+017F (bytes C5 BF).
\<close>

definition EqualFold_items :: "string \<Rightarrow> bool" where
  "EqualFold_items s \<longleftrightarrow>
     map asciiLower s = ''items'' \<or>
     (map asciiLower (take 4 s) = ''item'' \<and> drop 4 s = [CHR 0xC5, CHR 0xBF])"

text \<open>The defaults \<open>StreamExport\<close> fills in before it dispatches.\<close>

definition fillDefaults :: "ExportOptions \<Rightarrow> ExportOptions" where
  "fillDefaults opts =
     opts\<lparr>Type := (if Type opts = [] then ''pairs'' else Type opts),
          Split := (if Split opts = [] then ''train'' else Split opts),
          Status := (if Status opts = [] then ''approved'' else Status opts)\<rparr>"

text \<open>The final \<open>switch opts.Type\<close> of \<open>StreamExport\<close>.\<close>

definition streamByType ::
  "DB \<Rightarrow> outrec list \<Rightarrow> ExportOptions \<Rightarrow> (error option \<times> outrec list) option" where
  "streamByType db w opts =
     (if Type opts = ''pairs'' then streamPairs db w opts
      else if Type opts = ''conversations'' then Some (streamConversations db w opts)
      else Some (Some (ErrUnknownExportType (Type opts)), w))"

definition StreamExport ::
  "DB \<Rightarrow> outrec list \<Rightarrow> ExportOptions \<Rightarrow> (error option \<times> outrec list) option" where
  "StreamExport db w opts0 =
     (let opts = fillDefaults opts0 in
      if DatasetID opts > 0 then
        (case GetDataset db (DatasetID opts) of
           Inl err \<Rightarrow> Some (Some err, w)
         | Inr ds \<Rightarrow>
             if EqualFold_items (d_kind ds) then streamDatasetItems db w opts
             else streamByType db w opts)
      else streamByType db w opts)"

section \<open>Reference definitions\<close>

subsection \<open>Loop-free descriptions of the derivation\<close>

text \<open>
  The nearest index below \<open>i\<close> whose message has the given role: the first such index
  in the list \<open>i - 1, \<dots>, 0\<close>.
\<close>

definition nearestBefore :: "Message list \<Rightarrow> nat \<Rightarrow> Role \<Rightarrow> nat option" where
  "nearestBefore msgs i role =
     (case filter (\<lambda>j. Role (msgs ! j) = role) (rev [0..<i]) of
        [] \<Rightarrow> None
      | j # _ \<Rightarrow> Some j)"

text \<open>The indices below \<open>n\<close> of the user messages, the latest first.\<close>

definition usersBack :: "Message list \<Rightarrow> nat \<Rightarrow> nat list" where
  "usersBack msgs n = filter (\<lambda>j. Role (msgs ! j) = RoleUser) (rev [0..<n])"

text \<open>
  Where the context range starts: at 0 when \<open>k = 0\<close> or when the prefix up to \<open>u\<close> has
  fewer than \<open>k\<close> user messages, otherwise at the \<open>k\<close>-th user message counted backward
  from \<open>u\<close>, inclusive.
\<close>

definition contextStart :: "Message list \<Rightarrow> nat \<Rightarrow> nat \<Rightarrow> nat" where
  "contextStart msgs u k =
     (if k = 0 \<or> length (usersBack msgs (Suc u)) < k then 0
      else usersBack msgs (Suc u) ! (k - 1))"

definition eligible :: "bool \<Rightarrow> Message \<Rightarrow> bool" where
  "eligible includeSystem m \<longleftrightarrow>
     (if Role m = RoleSystem then includeSystem else True) \<and> TrimSpace (Content m) \<noteq> []"

definition renderLine :: "string \<Rightarrow> Message \<Rightarrow> string" where
  "renderLine roleStyle m =
     (if roleStyle = ''plain'' then TrimSpace (Content m)
      else roleLabel (Role m) @ TrimSpace (Content m))"

fun joinLines :: "string list \<Rightarrow> string" where
  "joinLines [] = []"
| "joinLines [l] = l"
| "joinLines (l # l' # ls) = l @ [CHR 0x0A] @ joinLines (l' # ls)"

text \<open>The messages a prompt is rendered from: the eligible ones of the context range.\<close>

definition contextMessages :: "Message list \<Rightarrow> nat \<Rightarrow> bool \<Rightarrow> nat \<Rightarrow> Message list" where
  "contextMessages msgs u includeSystem k =
     filter (eligible includeSystem) (drop (contextStart msgs u k) (take (Suc u) msgs))"

definition renderRef :: "Message list \<Rightarrow> nat \<Rightarrow> bool \<Rightarrow> nat \<Rightarrow> string \<Rightarrow> string" where
  "renderRef msgs u includeSystem k roleStyle =
     joinLines (map (renderLine roleStyle) (contextMessages msgs u includeSystem k))"

definition appendLine :: "string \<Rightarrow> string \<Rightarrow> string" where
  "appendLine b l = (if length b > 0 then b @ [CHR 0x0A] else b) @ l"

definition countUserTurns :: "Message list \<Rightarrow> nat" where
  "countUserTurns ms = length (filter (\<lambda>m. Role m = RoleUser) ms)"

definition effectiveRoleStyle :: "ExportOptions \<Rightarrow> string" where
  "effectiveRoleStyle opts = (if RoleStyle opts = [] then ''labels'' else RoleStyle opts)"

definition promptRef :: "Message list \<Rightarrow> ExportOptions \<Rightarrow> nat \<Rightarrow> string" where
  "promptRef msgs opts u =
     (if Context opts = ''window'' then
        renderRef msgs u (IncludeSystem opts) (nat (ContextTurns opts)) (effectiveRoleStyle opts)
      else if Context opts = ''full'' then
        renderRef msgs u (IncludeSystem opts) 0 (effectiveRoleStyle opts)
      else TrimSpace (Content (msgs ! u)))"

definition pairsAt :: "Message list \<Rightarrow> ExportOptions \<Rightarrow> nat \<Rightarrow> ExportPair list" where
  "pairsAt msgs opts i =
     (if Role (msgs ! i) = RoleAssistant \<and> TrimSpace (Content (msgs ! i)) \<noteq> [] then
        (case nearestBefore msgs i RoleUser of
           None \<Rightarrow> []
         | Some u \<Rightarrow>
             if promptRef msgs opts u = [] then []
             else [\<lparr>User = promptRef msgs opts u, Assistant = TrimSpace (Content (msgs ! i))\<rparr>])
      else [])"

definition pairsRef :: "Message list \<Rightarrow> ExportOptions \<Rightarrow> ExportPair list" where
  "pairsRef msgs opts = concat (map (pairsAt msgs opts) [0..<length msgs])"

subsection \<open>Pairs without context\<close>

text \<open>
  The pair of the assistant message at index \<open>i\<close> when no context is rendered: none
  when the message is not an assistant message, has no text, has no user message before
  it, or when that user message has no text.
\<close>

definition nonePairAt :: "Message list \<Rightarrow> nat \<Rightarrow> ExportPair list" where
  "nonePairAt msgs i =
     (if Role (msgs ! i) = RoleAssistant \<and> TrimSpace (Content (msgs ! i)) \<noteq> [] then
        (case nearestBefore msgs i RoleUser of
           None \<Rightarrow> []
         | Some u \<Rightarrow>
             if TrimSpace (Content (msgs ! u)) = [] then []
             else [\<lparr>User = TrimSpace (Content (msgs ! u)),
                    Assistant = TrimSpace (Content (msgs ! i))\<rparr>])
      else [])"

definition nonePairs :: "Message list \<Rightarrow> ExportPair list" where
  "nonePairs msgs = concat (map (nonePairAt msgs) [0..<length msgs])"

text \<open>The same without the last condition: every assistant message with text and a
  user message before it gives a pair.\<close>

definition everyPairAt :: "Message list \<Rightarrow> nat \<Rightarrow> ExportPair list" where
  "everyPairAt msgs i =
     (if Role (msgs ! i) = RoleAssistant \<and> TrimSpace (Content (msgs ! i)) \<noteq> [] then
        (case nearestBefore msgs i RoleUser of
           None \<Rightarrow> []
         | Some u \<Rightarrow>
             [\<lparr>User = TrimSpace (Content (msgs ! u)),
               Assistant = TrimSpace (Content (msgs ! i))\<rparr>])
      else [])"

definition everyPairs :: "Message list \<Rightarrow> ExportPair list" where
  "everyPairs msgs = concat (map (everyPairAt msgs) [0..<length msgs])"

subsection \<open>The context renderer as specified\<close>

definition knownRole :: "Role \<Rightarrow> bool" where
  "knownRole r \<longleftrightarrow> r = ''system'' \<or> r = ''user'' \<or> r = ''assistant''"

definition specLabel :: "Role \<Rightarrow> string" where
  "specLabel r =
     (if r = ''system'' then ''System: ''
      else if r = ''user'' then ''User: ''
      else if r = ''assistant'' then ''Assistant: ''
      else [])"

definition specLine :: "string \<Rightarrow> Message \<Rightarrow> string" where
  "specLine roleStyle m =
     (if roleStyle = ''labels'' then specLabel (Role m) @ TrimSpace (Content m)
      else TrimSpace (Content m))"

definition specRetained :: "bool \<Rightarrow> Message \<Rightarrow> bool" where
  "specRetained includeSystem m \<longleftrightarrow>
     (if Role m = ''system'' then includeSystem else True) \<and> TrimSpace (Content m) \<noteq> []"

definition specRenderContext ::
  "Message list \<Rightarrow> nat \<Rightarrow> bool \<Rightarrow> nat \<Rightarrow> string \<Rightarrow> string" where
  "specRenderContext msgs uptoIndex includeSystem contextTurns roleStyle =
     joinLines
       (map (specLine roleStyle)
          (filter (specRetained includeSystem)
             (drop (contextStart msgs uptoIndex contextTurns) (take (Suc uptoIndex) msgs))))"

subsection \<open>Items and whole exports\<close>

definition itemPairsRef :: "RawMessage \<Rightarrow> ExportOptions \<Rightarrow> ExportPair list" where
  "itemPairsRef data opts =
     (case unmarshalObject data of
        None \<Rightarrow> []
      | Some obj \<Rightarrow>
          (case singleTurn obj of
             Some p \<Rightarrow> [p]
           | None \<Rightarrow>
               (case lookupKey obj ''messages'' of
                  None \<Rightarrow> []
                | Some mRaw \<Rightarrow>
                    (case unmarshalMessages mRaw of
                       None \<Rightarrow> []
                     | Some msgs \<Rightarrow> pairsRef msgs opts))))"

definition capped :: "int \<Rightarrow> 'a list \<Rightarrow> 'a list" where
  "capped n xs = (if n > 0 then take (nat n) xs else xs)"

text \<open>
  What the data of an export derives when nothing caps it: the records, in order, and
  the error the export ends with. Each stream is described by the rows its query selects
  and what one row contributes; no counter and no sink appear. An items export with meta
  ends at the first row whose data the encoder cannot marshal.
\<close>

definition marshals :: "item_row \<Rightarrow> bool" where
  "marshals row \<longleftrightarrow> di_data row \<noteq> None"

definition conversationRecords :: "DB \<Rightarrow> ExportOptions \<Rightarrow> error option \<times> outrec list" where
  "conversationRecords db opts =
     (if Type opts = ''pairs'' then
        (None, concat (map (\<lambda>row. map OutPair (pairsRef (loadMessages db (c_id row)) opts))
                        (conversationsFilterQuery db opts)))
      else if Type opts = ''conversations'' then
        (None, map (conversationObject db) (conversationsFilterQuery db opts))
      else (Some (ErrUnknownExportType (Type opts)), []))"

definition itemRecords :: "DB \<Rightarrow> ExportOptions \<Rightarrow> error option \<times> outrec list" where
  "itemRecords db opts =
     (if Type opts = ''pairs'' then
        (None, concat (map (\<lambda>row. map OutPair (itemPairsRef (di_data row) opts))
                        (datasetItemsQuery db (DatasetID opts))))
      else if Type opts = ''items'' then
        (None, map (\<lambda>row. OutItem (di_data row)) (datasetItemsQuery db (DatasetID opts)))
      else if Type opts = ''items_with_meta'' then
        (if list_all marshals (datasetItemsQuery db (DatasetID opts)) then None
         else Some ErrMarshal,
         map itemWithMeta (takeWhile marshals (datasetItemsQuery db (DatasetID opts))))
      else (Some (ErrUnknownItemsExportType (Type opts)), []))"

definition exportRecords :: "DB \<Rightarrow> ExportOptions \<Rightarrow> error option \<times> outrec list" where
  "exportRecords db opts =
     (if DatasetID opts > 0 then
        (case GetDataset db (DatasetID opts) of
           Inl err \<Rightarrow> (Some err, [])
         | Inr ds \<Rightarrow>
             if EqualFold_items (d_kind ds) then itemRecords db opts
             else conversationRecords db opts)
      else conversationRecords db opts)"

text \<open>
  The error of a capped export: none when the cap is reached, which ends the export
  before anything later can fail; otherwise the error of the uncapped export.
\<close>

definition cappedError :: "int \<Rightarrow> error option \<times> outrec list \<Rightarrow> error option" where
  "cappedError n r = (if n > 0 \<and> nat n \<le> length (snd r) then None else fst r)"

text \<open>The documented defaults of the five string options.\<close>

definition withDefaults :: "ExportOptions \<Rightarrow> ExportOptions" where
  "withDefaults opts =
     opts\<lparr>Type := (if Type opts = [] then ''pairs'' else Type opts),
          Split := (if Split opts = [] then ''train'' else Split opts),
          Status := (if Status opts = [] then ''approved'' else Status opts),
          Context := (if Context opts = [] then ''none'' else Context opts),
          RoleStyle := (if RoleStyle opts = [] then ''labels'' else RoleStyle opts)\<rparr>"

subsection \<open>Example data\<close>

definition msg :: "Role \<Rightarrow> string \<Rightarrow> Message" where
  "msg r c = \<lparr>Role = r, Content = c, Name = [], Meta = None\<rparr>"

text \<open>The zero value of \<open>ExportOptions\<close>: every field unset.\<close>

definition zeroOptions :: ExportOptions where
  "zeroOptions =
     \<lparr>Type = [], DatasetID = 0, Split = [], Status = [], IncludeSystem = False,
      Context = [], ContextTurns = 0, RoleStyle = [], MaxExamples = 0\<rparr>"

definition consecutiveExample :: "Message list" where
  "consecutiveExample = [msg ''user'' ''Q'', msg ''assistant'' ''A1'', msg ''assistant'' ''A2'']"

definition blankUserExample :: "Message list" where
  "blankUserExample = [msg ''user'' '' '', msg ''assistant'' ''A'']"

definition mixedExample :: "Message list" where
  "mixedExample =
     [msg ''assistant'' ''early'', msg ''system'' ''S'', msg ''user'' '' Q1 '',
      msg ''assistant'' ''A1 '', msg ''assistant'' ''  '', msg ''user'' ''Q2'',
      msg ''system'' ''T'', msg ''assistant'' ''A2'']"

definition windowExample :: "Message list" where
  "windowExample =
     [msg ''system'' '' Be brief. '', msg ''user'' ''Q1'', msg ''assistant'' ''A1'',
      msg ''user'' ''   '', msg ''user'' ''Q2'', msg ''assistant'' ''A2'',
      msg ''user'' ''Q3'', msg ''assistant'' ''A3'']"

definition greeting :: json where
  "greeting =
     JArray [JObject [(''role'', JString ''user''), (''content'', JString ''Hi'')],
             JObject [(''Role'', JString ''assistant''), (''content'', JString '' Hello '')]]"

definition bothShapes :: "(string \<times> json) list" where
  "bothShapes =
     [(''user'', JString '' What? ''), (''messages'', greeting), (''assistant'', JString ''That.'')]"

definition brokenSingleTurn :: "(string \<times> json) list" where
  "brokenSingleTurn =
     [(''user'', JNumber ''7''), (''assistant'', JString ''That.''), (''messages'', greeting)]"

definition messageRow :: "int \<Rightarrow> int \<Rightarrow> string \<Rightarrow> string \<Rightarrow> message_row" where
  "messageRow conversationID idx role content =
     \<lparr>cm_conversation_id = conversationID, cm_idx = idx, cm_role = role, cm_name = [],
      cm_content = content, cm_meta = None\<rparr>"

definition conversationRow :: "int \<Rightarrow> int \<Rightarrow> conversation_row" where
  "conversationRow ident datasetID =
     \<lparr>c_id = ident, c_dataset_id = datasetID, c_split = ''train'', c_status = ''approved'',
      c_tags = Some (JArray []), c_source = [], c_notes = []\<rparr>"

text \<open>
  A database with a conversations dataset (1) of two conversations, stored out of
  order, and an items dataset (2) of three items: one of both shapes, one of the
  multi-turn shape, one of neither.
\<close>

definition exampleDB :: DB where
  "exampleDB =
     \<lparr>datasets = [\<lparr>d_id = 1, d_kind = ''conversations''\<rparr>, \<lparr>d_id = 2, d_kind = ''Items''\<rparr>],
      conversations = [conversationRow 2 1, conversationRow 1 1],
      conversation_messages =
        [messageRow 1 1 ''assistant'' ''A1'', messageRow 1 0 ''user'' ''Q'',
         messageRow 1 2 ''assistant'' ''A2'', messageRow 2 0 ''user'' ''Q2'',
         messageRow 2 1 ''assistant'' ''A3''],
      dataset_items =
        [\<lparr>di_id = 3, di_dataset_id = 2, di_source_ref = ''c'',
          di_data = Some (JArray [JString ''not'', JString ''an'', JString ''object''])\<rparr>,
         \<lparr>di_id = 1, di_dataset_id = 2, di_source_ref = ''a'',
          di_data = Some (JObject bothShapes)\<rparr>,
         \<lparr>di_id = 2, di_dataset_id = 2, di_source_ref = ''b'',
          di_data = Some (JObject [(''messages'', greeting)])\<rparr>]\<rparr>"

text \<open>An items dataset whose second item holds bytes that are not valid JSON.\<close>

definition brokenItemsDB :: DB where
  "brokenItemsDB =
     \<lparr>datasets = [\<lparr>d_id = 1, d_kind = ''items''\<rparr>],
      conversations = [],
      conversation_messages = [],
      dataset_items =
        [\<lparr>di_id = 1, di_dataset_id = 1, di_source_ref = ''a'', di_data = Some JNull\<rparr>,
         \<lparr>di_id = 2, di_dataset_id = 1, di_source_ref = ''b'', di_data = None\<rparr>,
         \<lparr>di_id = 3, di_dataset_id = 1, di_source_ref = ''c'', di_data = Some (JBool True)\<rparr>]\<rparr>"

text \<open>A database with one conversation of seven user turns and an answer.\<close>

definition longDB :: DB where
  "longDB =
     \<lparr>datasets = [\<lparr>d_id = 1, d_kind = ''conversations''\<rparr>],
      conversations = [conversationRow 1 1],
      conversation_messages =
        [messageRow 1 0 ''user'' ''q1'', messageRow 1 1 ''user'' ''q2'',
         messageRow 1 2 ''user'' ''q3'', messageRow 1 3 ''user'' ''q4'',
         messageRow 1 4 ''user'' ''q5'', messageRow 1 5 ''user'' ''q6'',
         messageRow 1 6 ''user'' ''q7'', messageRow 1 7 ''assistant'' ''a''],
      dataset_items = []\<rparr>"

section \<open>Loop-free characterisation of the derivation\<close>

declare findPrevRole.simps [simp del] turnsLoop.simps [simp del] renderLoop.simps [simp del]
  derivePairsLoop.simps [simp del]

lemma msgAt_nat [simp]: "msgAt msgs (int n) = (if n < length msgs then Some (msgs ! n) else None)"
  by (simp add: msgAt_def)

lemma msgAt_neg [simp]: "j < 0 \<Longrightarrow> msgAt msgs j = None"
  by (simp add: msgAt_def)

lemma findPrevRole_eq:
  "n \<le> length msgs \<Longrightarrow>
   findPrevRole msgs (int n - 1) role =
     Some (case nearestBefore msgs n role of None \<Rightarrow> - 1 | Some j \<Rightarrow> int j)"
proof (induction n)
  case 0
  show ?case by (simp add: findPrevRole.simps [of msgs "- 1"] nearestBefore_def)
next
  case (Suc n)
  then have IH: "findPrevRole msgs (int n - 1) role =
     Some (case nearestBefore msgs n role of None \<Rightarrow> - 1 | Some j \<Rightarrow> int j)"
    and n: "n < length msgs" by simp_all
  show ?case
    using n IH by (simp add: findPrevRole.simps [of msgs "int n"] nearestBefore_def)
qed

lemma nearestBefore_lt: "nearestBefore msgs i role = Some u \<Longrightarrow> u < i"
proof -
  assume "nearestBefore msgs i role = Some u"
  then obtain js where "filter (\<lambda>j. Role (msgs ! j) = role) (rev [0..<i]) = u # js"
    by (auto simp: nearestBefore_def split: list.splits)
  then have "u \<in> set (filter (\<lambda>j. Role (msgs ! j) = role) (rev [0..<i]))" by simp
  then show ?thesis by simp
qed

lemma nearestBefore_role: "nearestBefore msgs i role = Some u \<Longrightarrow> Role (msgs ! u) = role"
proof -
  assume "nearestBefore msgs i role = Some u"
  then obtain js where "filter (\<lambda>j. Role (msgs ! j) = role) (rev [0..<i]) = u # js"
    by (auto simp: nearestBefore_def split: list.splits)
  then have "u \<in> set (filter (\<lambda>j. Role (msgs ! j) = role) (rev [0..<i]))" by simp
  then show ?thesis by simp
qed

lemma turnsLoop_eq:
  "n \<le> length msgs \<Longrightarrow> t < k \<Longrightarrow>
   turnsLoop msgs k t (int n - 1) =
     Some (if nat (k - t) \<le> length (usersBack msgs n)
           then int (usersBack msgs n ! (nat (k - t) - 1)) else - 1)"
proof (induction n arbitrary: t)
  case 0
  then show ?case by (simp add: turnsLoop.simps [of msgs k t "- 1"] usersBack_def)
next
  case (Suc n)
  then have n: "n < length msgs" by simp
  show ?case
  proof (cases "Role (msgs ! n) = RoleUser")
    case False
    then have "usersBack msgs (Suc n) = usersBack msgs n" by (simp add: usersBack_def)
    with Suc n False show ?thesis
      by (simp add: turnsLoop.simps [of msgs k t "int n"])
  next
    case True
    then have ub: "usersBack msgs (Suc n) = n # usersBack msgs n" by (simp add: usersBack_def)
    show ?thesis
    proof (cases "t + 1 \<ge> k")
      case True
      with \<open>t < k\<close> have "nat (k - t) = 1" by simp
      with True n \<open>Role (msgs ! n) = RoleUser\<close> ub show ?thesis
        by (simp add: turnsLoop.simps [of msgs k t "int n"])
    next
      case False
      then have lt: "t + 1 < k" by simp
      have IH: "turnsLoop msgs k (t + 1) (int n - 1) =
         Some (if nat (k - (t + 1)) \<le> length (usersBack msgs n)
           then int (usersBack msgs n ! (nat (k - (t + 1)) - 1)) else - 1)"
        using Suc.IH [of "t + 1"] n lt by simp
      have eq: "nat (k - t) = Suc (nat (k - (t + 1)))" using lt by simp
      have pos: "0 < nat (k - (t + 1))" using lt by simp
      show ?thesis
        using n True False IH ub pos
        by (simp add: turnsLoop.simps [of msgs k t "int n"] eq nth_Cons')
    qed
  qed
qed

lemma renderLoop_step:
  "i \<le> u \<Longrightarrow> i < length msgs \<Longrightarrow>
   renderLoop msgs (int u) inc style (int i) b =
   renderLoop msgs (int u) inc style (int (Suc i))
     (if eligible inc (msgs ! i) then appendLine b (renderLine style (msgs ! i)) else b)"
  by (subst renderLoop.simps)
     (auto simp add: eligible_def appendLine_def renderLine_def add.commute)

lemma renderLoop_eq:
  "u < length msgs \<Longrightarrow> i \<le> Suc u \<Longrightarrow>
   renderLoop msgs (int u) inc style (int i) b =
     Some (foldl appendLine b
            (map (renderLine style) (filter (eligible inc) (drop i (take (Suc u) msgs)))))"
proof (induction "Suc u - i" arbitrary: i b)
  case 0
  then have "i = Suc u" by simp
  with 0 show ?case
    using renderLoop.simps [of msgs "int u" inc style "int (Suc u)" b] by simp
next
  case (Suc d)
  then have i: "i \<le> u" and il: "i < length msgs" by simp_all
  have d: "d = Suc u - Suc i" using Suc by simp
  have dr: "drop i (take (Suc u) msgs) = msgs ! i # drop (Suc i) (take (Suc u) msgs)"
    using i il by (simp add: Cons_nth_drop_Suc [symmetric])
  have IH: "\<And>b'. renderLoop msgs (int u) inc style (int (Suc i)) b' =
     Some (foldl appendLine b'
            (map (renderLine style) (filter (eligible inc) (drop (Suc i) (take (Suc u) msgs)))))"
    using Suc.hyps(1) [OF d] Suc.prems i by simp
  show ?case
    unfolding renderLoop_step [OF i il] IH dr by simp
qed

lemma foldl_appendLine_nonempty:
  "b \<noteq> [] \<Longrightarrow> foldl appendLine b ls = b @ concat (map (\<lambda>l. CHR 0x0A # l) ls)"
  by (induction ls arbitrary: b) (simp_all add: appendLine_def)

lemma joinLines_Cons: "joinLines (l # ls) = l @ concat (map (\<lambda>l. CHR 0x0A # l) ls)"
  by (induction ls arbitrary: l) simp_all

lemma foldl_appendLine_join:
  "\<forall>l \<in> set ls. l \<noteq> [] \<Longrightarrow> foldl appendLine [] ls = joinLines ls"
proof (cases ls)
  case Nil
  then show ?thesis by simp
next
  case (Cons l ls')
  assume "\<forall>l \<in> set ls. l \<noteq> []"
  with Cons have "l \<noteq> []" by simp
  then show ?thesis
    unfolding Cons by (simp add: appendLine_def foldl_appendLine_nonempty joinLines_Cons)
qed

lemma renderLine_nonempty: "eligible inc m \<Longrightarrow> renderLine style m \<noteq> []"
  by (simp add: eligible_def renderLine_def)

lemma usersBack_lt: "j \<in> set (usersBack msgs n) \<Longrightarrow> j < n"
  by (simp add: usersBack_def)

lemma contextStart_le: "contextStart msgs u k \<le> u"
proof -
  have "k \<noteq> 0 \<Longrightarrow> \<not> length (usersBack msgs (Suc u)) < k \<Longrightarrow>
        usersBack msgs (Suc u) ! (k - 1) < Suc u"
    by (rule usersBack_lt [of _ msgs]) (simp add: nth_mem)
  then show ?thesis by (auto simp: contextStart_def)
qed

lemma renderContext_eq:
  assumes u: "u < length msgs"
  shows "renderContext msgs (int u) inc k style = Some (renderRef msgs u inc (nat k) style)"
proof -
  have start: "(if k > 0 then
              (case turnsLoop msgs k 0 (int u) of
                 None \<Rightarrow> None
               | Some j \<Rightarrow> Some (if j > 0 then j else 0))
            else Some 0) = Some (int (contextStart msgs u (nat k)))"
  proof (cases "k > 0")
    case False
    then show ?thesis by (simp add: contextStart_def)
  next
    case True
    have "turnsLoop msgs k 0 (int (Suc u) - 1) =
       Some (if nat (k - 0) \<le> length (usersBack msgs (Suc u))
           then int (usersBack msgs (Suc u) ! (nat (k - 0) - 1)) else - 1)"
      using u True by (intro turnsLoop_eq) simp_all
    then show ?thesis using True by (simp add: contextStart_def not_less)
  qed
  have le: "contextStart msgs u (nat k) \<le> Suc u"
    using contextStart_le [of msgs u "nat k"] by simp
  have "renderContext msgs (int u) inc k style =
        renderLoop msgs (int u) inc style (int (contextStart msgs u (nat k))) []"
    unfolding renderContext_def start by simp
  also have "\<dots> = Some (foldl appendLine []
            (map (renderLine style) (contextMessages msgs u inc (nat k))))"
    using renderLoop_eq [OF u le] by (simp add: contextMessages_def)
  also have "foldl appendLine [] (map (renderLine style) (contextMessages msgs u inc (nat k)))
       = renderRef msgs u inc (nat k) style"
    unfolding renderRef_def
    by (rule foldl_appendLine_join) (auto simp: contextMessages_def renderLine_nonempty)
  finally show ?thesis .
qed

lemma promptFor_eq:
  assumes u: "u < length msgs"
  shows "promptFor msgs opts (if Context opts = [] then ''none'' else Context opts)
           (if RoleStyle opts = [] then ''labels'' else RoleStyle opts) (int u) =
         Some (promptRef msgs opts u)"
  using u by (simp add: promptFor_def promptRef_def renderContext_eq effectiveRoleStyle_def)

lemma derivePairsStep_eq:
  assumes i: "i < length msgs"
  shows "derivePairsStep msgs opts (if Context opts = [] then ''none'' else Context opts)
           (if RoleStyle opts = [] then ''labels'' else RoleStyle opts) (int i) =
         Some (pairsAt msgs opts i)"
proof -
  have fp: "findPrevRole msgs (int i - 1) RoleUser =
     Some (case nearestBefore msgs i RoleUser of None \<Rightarrow> - 1 | Some j \<Rightarrow> int j)"
    using i by (intro findPrevRole_eq) simp
  show ?thesis
  proof (cases "nearestBefore msgs i RoleUser")
    case None
    then show ?thesis using i fp by (simp add: derivePairsStep_def pairsAt_def)
  next
    case (Some u)
    then have "u < length msgs" using nearestBefore_lt [of msgs i RoleUser u] i by simp
    then have pf: "promptFor msgs opts (if Context opts = [] then ''none'' else Context opts)
           (if RoleStyle opts = [] then ''labels'' else RoleStyle opts) (int u) =
         Some (promptRef msgs opts u)" by (rule promptFor_eq)
    show ?thesis using i fp Some pf by (simp add: derivePairsStep_def pairsAt_def)
  qed
qed

lemma derivePairsLoop_eq:
  "i \<le> length msgs \<Longrightarrow>
   derivePairsLoop msgs opts (if Context opts = [] then ''none'' else Context opts)
           (if RoleStyle opts = [] then ''labels'' else RoleStyle opts) (int i) acc =
     Some (acc @ concat (map (pairsAt msgs opts) [i..<length msgs]))"
proof (induction "length msgs - i" arbitrary: i acc)
  case 0
  then show ?case by (subst derivePairsLoop.simps) simp
next
  case (Suc d)
  then have i: "i < length msgs" by simp
  have d: "d = length msgs - Suc i" using Suc by simp
  have IH: "\<And>acc'. derivePairsLoop msgs opts (if Context opts = [] then ''none'' else Context opts)
           (if RoleStyle opts = [] then ''labels'' else RoleStyle opts) (int (Suc i)) acc' =
     Some (acc' @ concat (map (pairsAt msgs opts) [Suc i..<length msgs]))"
    using Suc.hyps(1) [OF d] i by simp
  have step: "int i + 1 = int (Suc i)" by simp
  show ?case
    apply (subst derivePairsLoop.simps)
    unfolding derivePairsStep_eq [OF i] step IH
    using i by (simp add: upt_conv_Cons)
qed

text \<open>The pair deriver never panics, and its result is the loop-free description.\<close>

lemma derivePairs_eq: "derivePairs msgs opts = Some (pairsRef msgs opts)"
  using derivePairsLoop_eq [of 0 msgs opts "[]"] by (simp add: derivePairs_def pairsRef_def)

section \<open>Pairs without context\<close>

lemma nearestBefore_Some_iff:
  "nearestBefore msgs i role = Some u \<longleftrightarrow>
     u < i \<and> Role (msgs ! u) = role \<and> (\<forall>j. u < j \<and> j < i \<longrightarrow> Role (msgs ! j) \<noteq> role)"
proof (induction i)
  case 0
  show ?case by (simp add: nearestBefore_def)
next
  case (Suc i)
  have unfold: "nearestBefore msgs (Suc i) role =
      (if Role (msgs ! i) = role then Some i else nearestBefore msgs i role)"
    by (simp add: nearestBefore_def)
  show ?case
  proof (cases "Role (msgs ! i) = role")
    case True
    then have l: "nearestBefore msgs (Suc i) role = Some i" by (simp add: unfold)
    have "u < i \<Longrightarrow> \<not> (\<forall>j. u < j \<and> j < Suc i \<longrightarrow> Role (msgs ! j) \<noteq> role)"
      using True by auto
    then show ?thesis unfolding l using True by (auto simp: less_Suc_eq)
  next
    case False
    then have l: "nearestBefore msgs (Suc i) role = nearestBefore msgs i role"
      by (simp add: unfold)
    have "(\<forall>j. u < j \<and> j < Suc i \<longrightarrow> Role (msgs ! j) \<noteq> role) \<longleftrightarrow>
          (\<forall>j. u < j \<and> j < i \<longrightarrow> Role (msgs ! j) \<noteq> role)"
      using False by (auto simp: less_Suc_eq)
    moreover have "u < i \<and> Role (msgs ! u) = role \<longleftrightarrow> u < Suc i \<and> Role (msgs ! u) = role"
      using False by (auto simp: less_Suc_eq)
    ultimately show ?thesis unfolding l Suc.IH by blast
  qed
qed

lemma pairsAt_none:
  "Context opts \<noteq> ''window'' \<Longrightarrow> Context opts \<noteq> ''full'' \<Longrightarrow>
   pairsAt msgs opts i = nonePairAt msgs i"
  by (simp add: pairsAt_def nonePairAt_def promptRef_def split: option.splits)

lemma pairsRef_none:
  "Context opts \<noteq> ''window'' \<Longrightarrow> Context opts \<noteq> ''full'' \<Longrightarrow>
   pairsRef msgs opts = nonePairs msgs"
proof -
  assume "Context opts \<noteq> ''window''" "Context opts \<noteq> ''full''"
  then have "pairsAt msgs opts = nonePairAt msgs"
    by (intro ext) (rule pairsAt_none)
  then show ?thesis by (simp add: pairsRef_def nonePairs_def)
qed

text \<open>
  C1, amended. With \<open>context = none\<close> the pair deriver scans the messages in order; each
  assistant message with non-empty trimmed content that has a user message before it
  yields one pair of the trimmed content of the nearest preceding user message and its
  own trimmed content, unless that user message's trimmed content is empty, in which
  case no pair is emitted; an assistant message with no preceding user message yields
  nothing. The list user "Q", assistant "A1", assistant "A2" yields the two pairs
  ("Q", "A1") and ("Q", "A2").
\<close>

theorem derivePairs_context_none:
  "Context opts = ''none'' \<Longrightarrow>
   derivePairs msgs opts = Some (nonePairs msgs) \<and>
   derivePairs consecutiveExample opts =
     Some [\<lparr>User = ''Q'', Assistant = ''A1''\<rparr>, \<lparr>User = ''Q'', Assistant = ''A2''\<rparr>]"
proof -
  assume c: "Context opts = ''none''"
  have general: "\<And>ms. derivePairs ms opts = Some (nonePairs ms)"
    using c by (simp add: derivePairs_eq pairsRef_none)
  have "nonePairs consecutiveExample =
     [\<lparr>User = ''Q'', Assistant = ''A1''\<rparr>, \<lparr>User = ''Q'', Assistant = ''A2''\<rparr>]"
    by code_simp
  then show ?thesis using general by simp
qed

theorem derivePairs_context_none_witness:
  "Context (zeroOptions\<lparr>Context := ''none''\<rparr>) = ''none'' \<and>
   derivePairs mixedExample (zeroOptions\<lparr>Context := ''none''\<rparr>) =
     Some [\<lparr>User = ''Q1'', Assistant = ''A1''\<rparr>, \<lparr>User = ''Q2'', Assistant = ''A2''\<rparr>]"
proof -
  have h: "Context (zeroOptions\<lparr>Context := ''none''\<rparr>) = ''none''" by simp
  have v: "nonePairs mixedExample =
     [\<lparr>User = ''Q1'', Assistant = ''A1''\<rparr>, \<lparr>User = ''Q2'', Assistant = ''A2''\<rparr>]"
    by code_simp
  show ?thesis
    using derivePairs_context_none [OF h, of mixedExample] h v by simp
qed

text \<open>
  C1 as stated gives a pair for every assistant message with text and a user message
  before it. A user message of white space only shows the difference: the code emits
  no pair, the statement asks for the pair ("", "A").
\<close>

theorem derivePairs_context_none_counterexample:
  "derivePairs blankUserExample (zeroOptions\<lparr>Context := ''none''\<rparr>) = Some [] \<and>
   everyPairs blankUserExample = [\<lparr>User = [], Assistant = ''A''\<rparr>] \<and>
   derivePairs blankUserExample (zeroOptions\<lparr>Context := ''none''\<rparr>)
     \<noteq> Some (everyPairs blankUserExample)"
proof -
  have a: "derivePairs blankUserExample (zeroOptions\<lparr>Context := ''none''\<rparr>) = Some []"
    by code_simp
  have b: "everyPairs blankUserExample = [\<lparr>User = [], Assistant = ''A''\<rparr>]"
    by code_simp
  show ?thesis unfolding a b by simp
qed

text \<open>
  C10. A \<open>Context\<close> that is none of "none", "window" and "full" (the empty string
  included) is treated as "none": the result is that of the same options with
  \<open>context = none\<close>, every prompt is the trimmed content of the nearest preceding user
  message, and the derivation returns.
\<close>

theorem derivePairs_unknown_context:
  "Context opts \<noteq> ''none'' \<Longrightarrow> Context opts \<noteq> ''window'' \<Longrightarrow> Context opts \<noteq> ''full'' \<Longrightarrow>
   derivePairs msgs opts = derivePairs msgs (opts\<lparr>Context := ''none''\<rparr>) \<and>
   derivePairs msgs opts = Some (nonePairs msgs)"
  by (simp add: derivePairs_eq pairsRef_none)

theorem derivePairs_unknown_context_witness:
  "Context (zeroOptions\<lparr>Context := ''everything''\<rparr>) \<noteq> ''none'' \<and>
   Context (zeroOptions\<lparr>Context := ''everything''\<rparr>) \<noteq> ''window'' \<and>
   Context (zeroOptions\<lparr>Context := ''everything''\<rparr>) \<noteq> ''full'' \<and>
   derivePairs mixedExample (zeroOptions\<lparr>Context := ''everything''\<rparr>) =
     Some [\<lparr>User = ''Q1'', Assistant = ''A1''\<rparr>, \<lparr>User = ''Q2'', Assistant = ''A2''\<rparr>]"
proof -
  have h1: "Context (zeroOptions\<lparr>Context := ''everything''\<rparr>) \<noteq> ''none''" by simp
  have h2: "Context (zeroOptions\<lparr>Context := ''everything''\<rparr>) \<noteq> ''window''" by simp
  have h3: "Context (zeroOptions\<lparr>Context := ''everything''\<rparr>) \<noteq> ''full''" by simp
  have v: "nonePairs mixedExample =
     [\<lparr>User = ''Q1'', Assistant = ''A1''\<rparr>, \<lparr>User = ''Q2'', Assistant = ''A2''\<rparr>]"
    by code_simp
  show ?thesis
    using derivePairs_unknown_context [OF h1 h2 h3, of mixedExample, THEN conjunct2] h1 h2 h3 v
    by simp
qed

section \<open>The context renderer\<close>

lemma trimLeft_hd: "trimLeft s \<noteq> [] \<Longrightarrow> \<not> asciiSpace (hd (trimLeft s))"
  by (induction s rule: trimLeft.induct) (auto split: if_splits)

lemma trimRightRev_hd: "trimRightRev s \<noteq> [] \<Longrightarrow> \<not> asciiSpace (hd (trimRightRev s))"
  by (induction s rule: trimRightRev.induct) (auto split: if_splits)

lemma trimRightRev_suffix: "\<exists>p. s = p @ trimRightRev s"
proof (induction s rule: trimRightRev.induct)
  case (1 c b a cs)
  show ?case
  proof (cases "asciiSpace c")
    case True
    with 1 obtain p where "b # a # cs = p @ trimRightRev (b # a # cs)" by auto
    then have "c # b # a # cs = (c # p) @ trimRightRev (b # a # cs)" by simp
    with True show ?thesis by (metis trimRightRev.simps(1))
  next
    case nsp: False
    show ?thesis
    proof (cases "space2 b c")
      case True
      with 1 nsp obtain p where "a # cs = p @ trimRightRev (a # cs)" by auto
      then have "c # b # a # cs = (c # b # p) @ trimRightRev (a # cs)" by simp
      with True nsp show ?thesis by (metis trimRightRev.simps(1))
    next
      case ns2: False
      show ?thesis
      proof (cases "space3 a b c")
        case True
        with 1 nsp ns2 obtain p where "cs = p @ trimRightRev cs" by auto
        then have "c # b # a # cs = (c # b # a # p) @ trimRightRev cs" by simp
        with True nsp ns2 show ?thesis by (metis trimRightRev.simps(1))
      next
        case False
        with nsp ns2 have "trimRightRev (c # b # a # cs) = c # b # a # cs" by simp
        then show ?thesis by (metis append_Nil)
      qed
    qed
  qed
next
  case (2 c b)
  show ?case
  proof (cases "asciiSpace c")
    case True
    with 2 obtain p where "[b] = p @ trimRightRev [b]" by auto
    then have "[c, b] = (c # p) @ trimRightRev [b]" by simp
    with True show ?thesis by (metis trimRightRev.simps(2))
  next
    case False
    then show ?thesis by (cases "space2 b c") (auto intro: exI [of _ "[]"])
  qed
next
  case (3 c)
  show ?case by (cases "asciiSpace c") (auto intro: exI [of _ "[]"])
next
  case 4
  show ?case by simp
qed

lemma TrimSpace_Nil [simp]: "TrimSpace [] = []"
  by (simp add: TrimSpace_def)

lemma TrimSpace_ends:
  assumes "TrimSpace s \<noteq> []"
  shows "\<not> asciiSpace (hd (TrimSpace s))" and "\<not> asciiSpace (last (TrimSpace s))"
proof -
  let ?l = "trimLeft s"
  let ?r = "trimRightRev (rev ?l)"
  from assms have r: "?r \<noteq> []" by (simp add: TrimSpace_def)
  obtain p where p: "rev ?l = p @ ?r" using trimRightRev_suffix by blast
  with r have l: "?l \<noteq> []" by auto
  have "last ?r = last (rev ?l)" using p r by (metis last_appendR)
  also have "\<dots> = hd ?l" using l by (simp add: last_rev)
  finally have "hd (TrimSpace s) = hd ?l" using r by (simp add: TrimSpace_def hd_rev)
  then show "\<not> asciiSpace (hd (TrimSpace s))" using trimLeft_hd [OF l] by simp
  have "last (TrimSpace s) = hd ?r" using r by (simp add: TrimSpace_def last_rev)
  then show "\<not> asciiSpace (last (TrimSpace s))" using trimRightRev_hd [OF r] by simp
qed

lemma newline_space: "asciiSpace (CHR 0x0A)"
  by (simp add: asciiSpace_def)

lemma joinLines_ends:
  "ls \<noteq> [] \<Longrightarrow> \<forall>l \<in> set ls. l \<noteq> [] \<Longrightarrow>
   joinLines ls \<noteq> [] \<and> hd (joinLines ls) = hd (hd ls) \<and> last (joinLines ls) = last (last ls)"
proof (induction ls rule: joinLines.induct)
  case 1
  then show ?case by simp
next
  case (2 l)
  then show ?case by simp
next
  case (3 l l' ls)
  then have "joinLines (l' # ls) \<noteq> []" and "last (joinLines (l' # ls)) = last (last (l' # ls))"
    and "l \<noteq> []" by simp_all
  then show ?case by simp
qed

lemma joinLines_Nil_iff: "\<forall>l \<in> set ls. l \<noteq> [] \<Longrightarrow> joinLines ls = [] \<longleftrightarrow> ls = []"
  using joinLines_ends [of ls] by (cases ls) auto

lemma renderLine_ends:
  assumes "eligible inc m"
  shows "hd (renderLine style m) \<noteq> CHR 0x0A" and "last (renderLine style m) \<noteq> CHR 0x0A"
proof -
  from assms have t: "TrimSpace (Content m) \<noteq> []" by (simp add: eligible_def)
  have h: "hd (TrimSpace (Content m)) \<noteq> CHR 0x0A" and l: "last (TrimSpace (Content m)) \<noteq> CHR 0x0A"
    using TrimSpace_ends [OF t] newline_space by auto
  show "hd (renderLine style m) \<noteq> CHR 0x0A"
    using h t by (simp add: renderLine_def roleLabel_def)
  show "last (renderLine style m) \<noteq> CHR 0x0A"
    using l t by (simp add: renderLine_def)
qed

lemma renderRef_ends:
  assumes "renderRef msgs u inc k style \<noteq> []"
  shows "hd (renderRef msgs u inc k style) \<noteq> CHR 0x0A"
    and "last (renderRef msgs u inc k style) \<noteq> CHR 0x0A"
proof -
  let ?ms = "contextMessages msgs u inc k"
  let ?ls = "map (renderLine style) ?ms"
  have el: "\<forall>m \<in> set ?ms. eligible inc m" by (simp add: contextMessages_def)
  then have ne: "\<forall>l \<in> set ?ls. l \<noteq> []" by (auto simp: renderLine_nonempty)
  from assms have ms: "?ms \<noteq> []" by (auto simp: renderRef_def)
  then have ls: "?ls \<noteq> []" by simp
  have e: "hd (joinLines ?ls) = hd (hd ?ls)" "last (joinLines ?ls) = last (last ?ls)"
    using joinLines_ends [OF ls ne] by simp_all
  have "hd ?ls = renderLine style (hd ?ms)" using ms by (simp add: hd_map)
  moreover have "last ?ls = renderLine style (last ?ms)" using ms by (simp add: last_map)
  moreover have "eligible inc (hd ?ms)" "eligible inc (last ?ms)" using el ms by simp_all
  ultimately show "hd (renderRef msgs u inc k style) \<noteq> CHR 0x0A"
    and "last (renderRef msgs u inc k style) \<noteq> CHR 0x0A"
    unfolding renderRef_def e using renderLine_ends by simp_all
qed

lemma specRetained_eq: "specRetained inc = eligible inc"
  by (intro ext) (simp add: specRetained_def eligible_def RoleSystem_def)

lemma specLine_eq:
  "knownRole (Role m) \<Longrightarrow> style = ''labels'' \<or> style = ''plain'' \<Longrightarrow>
   specLine style m = renderLine style m"
  by (auto simp: specLine_def renderLine_def specLabel_def roleLabel_def knownRole_def
      RoleSystem_def RoleAssistant_def)

lemma specRenderContext_eq:
  assumes "\<forall>m \<in> set msgs. knownRole (Role m)" and "style = ''labels'' \<or> style = ''plain''"
  shows "specRenderContext msgs u inc k style = renderRef msgs u inc k style"
proof -
  have "set (contextMessages msgs u inc k) \<subseteq> set msgs"
    unfolding contextMessages_def
    by (meson filter_is_subset set_drop_subset set_take_subset subset_trans)
  then have "map (specLine style) (contextMessages msgs u inc k) =
             map (renderLine style) (contextMessages msgs u inc k)"
    using assms by (intro map_cong refl specLine_eq) auto
  then have "map (specLine style) (filter (eligible inc)
                (drop (contextStart msgs u k) (take (Suc u) msgs))) =
             map (renderLine style) (filter (eligible inc)
                (drop (contextStart msgs u k) (take (Suc u) msgs)))"
    unfolding contextMessages_def .
  then show ?thesis
    unfolding specRenderContext_def renderRef_def specRetained_eq contextMessages_def
    by (rule arg_cong)
qed

text \<open>
  C2. For a message list whose roles are system, user or assistant, an index
  \<open>uptoIndex\<close> into it, and a role style labels or plain, the context renderer returns
  the reference rendering: the range ends at \<open>uptoIndex\<close> and starts at 0 when
  \<open>contextTurns = 0\<close> or the prefix has fewer than \<open>contextTurns\<close> user messages, otherwise
  at the \<open>contextTurns\<close>-th user message counted backward from \<open>uptoIndex\<close>; system
  messages are skipped unless \<open>includeSystem\<close>, messages with empty trimmed content are
  skipped; each retained message gives one line of its trimmed content, with its role
  label in front for labels; the lines are joined by single newlines. The result is
  empty exactly when no message of the range is retained, and otherwise neither begins
  nor ends with a newline.
\<close>

theorem renderContext_reference:
  assumes "uptoIndex < length msgs"
    and "\<forall>m \<in> set msgs. knownRole (Role m)"
    and "roleStyle = ''labels'' \<or> roleStyle = ''plain''"
  shows "renderContext msgs (int uptoIndex) includeSystem (int contextTurns) roleStyle =
           Some (specRenderContext msgs uptoIndex includeSystem contextTurns roleStyle) \<and>
         (specRenderContext msgs uptoIndex includeSystem contextTurns roleStyle = [] \<longleftrightarrow>
            filter (specRetained includeSystem)
              (drop (contextStart msgs uptoIndex contextTurns) (take (Suc uptoIndex) msgs)) = []) \<and>
         (specRenderContext msgs uptoIndex includeSystem contextTurns roleStyle \<noteq> [] \<longrightarrow>
            hd (specRenderContext msgs uptoIndex includeSystem contextTurns roleStyle) \<noteq> CHR 0x0A \<and>
            last (specRenderContext msgs uptoIndex includeSystem contextTurns roleStyle) \<noteq> CHR 0x0A)"
proof -
  have eq: "specRenderContext msgs uptoIndex includeSystem contextTurns roleStyle =
        renderRef msgs uptoIndex includeSystem contextTurns roleStyle"
    using assms(2,3) by (rule specRenderContext_eq)
  have a: "renderContext msgs (int uptoIndex) includeSystem (int contextTurns) roleStyle =
        Some (renderRef msgs uptoIndex includeSystem contextTurns roleStyle)"
    using renderContext_eq [OF assms(1), of includeSystem "int contextTurns" roleStyle] by simp
  have ne: "\<forall>l \<in> set (map (renderLine roleStyle)
        (contextMessages msgs uptoIndex includeSystem contextTurns)). l \<noteq> []"
    by (auto simp: contextMessages_def renderLine_nonempty)
  have b: "renderRef msgs uptoIndex includeSystem contextTurns roleStyle = [] \<longleftrightarrow>
        filter (specRetained includeSystem)
              (drop (contextStart msgs uptoIndex contextTurns) (take (Suc uptoIndex) msgs)) = []"
    unfolding renderRef_def joinLines_Nil_iff [OF ne]
    by (simp add: contextMessages_def specRetained_eq)
  show ?thesis
    unfolding eq using a b renderRef_ends [of msgs uptoIndex includeSystem contextTurns roleStyle]
    by blast
qed

theorem renderContext_reference_witness:
  "4 < length windowExample \<and> list_all (\<lambda>m. knownRole (Role m)) windowExample \<and>
   renderContext windowExample 4 True 2 ''labels'' = Some ''User: Q2'' \<and>
   renderContext windowExample 4 True 3 ''labels'' =
     Some ''User: Q1\<newline>Assistant: A1\<newline>User: Q2'' \<and>
   renderContext windowExample 4 True 0 ''plain'' = Some ''Be brief.\<newline>Q1\<newline>A1\<newline>Q2''"
proof -
  have h1: "4 < length windowExample" by (simp add: windowExample_def)
  have h2: "\<forall>m \<in> set windowExample. knownRole (Role m)"
    by (simp add: windowExample_def msg_def knownRole_def)
  have v1: "specRenderContext windowExample 4 True 2 ''labels'' = ''User: Q2''"
    by code_simp
  have v2: "specRenderContext windowExample 4 True 3 ''labels'' =
      ''User: Q1\<newline>Assistant: A1\<newline>User: Q2''"
    by code_simp
  have v3: "specRenderContext windowExample 4 True 0 ''plain'' = ''Be brief.\<newline>Q1\<newline>A1\<newline>Q2''"
    by code_simp
  have r1: "renderContext windowExample (int 4) True (int 2) ''labels'' =
      Some (specRenderContext windowExample 4 True 2 ''labels'')"
    using renderContext_reference [OF h1 h2, of "''labels''" True 2] by simp
  have r2: "renderContext windowExample (int 4) True (int 3) ''labels'' =
      Some (specRenderContext windowExample 4 True 3 ''labels'')"
    using renderContext_reference [OF h1 h2, of "''labels''" True 3] by simp
  have r3: "renderContext windowExample (int 4) True (int 0) ''plain'' =
      Some (specRenderContext windowExample 4 True 0 ''plain'')"
    using renderContext_reference [OF h1 h2, of "''plain''" True 0] by simp
  show ?thesis
    using r1 r2 r3 h1 h2 unfolding v1 v2 v3 by (simp add: list_all_iff)
qed

section \<open>The context window\<close>

lemma usersBack_Suc:
  "usersBack msgs (Suc n) =
     (if Role (msgs ! n) = RoleUser then n # usersBack msgs n else usersBack msgs n)"
  by (simp add: usersBack_def)

lemma countUserTurns_append [simp]:
  "countUserTurns (xs @ ys) = countUserTurns xs + countUserTurns ys"
  by (simp add: countUserTurns_def)

lemma countUserTurns_single [simp]:
  "countUserTurns [m] = (if Role m = RoleUser then 1 else 0)"
  by (simp add: countUserTurns_def)

lemma countUserTurns_Nil [simp]: "countUserTurns [] = 0"
  by (simp add: countUserTurns_def)

lemma countUserTurns_filter: "countUserTurns (filter P xs) \<le> countUserTurns xs"
  by (induction xs) (auto simp: countUserTurns_def)

lemma countUserTurns_take:
  "n \<le> length msgs \<Longrightarrow> countUserTurns (take n msgs) = length (usersBack msgs n)"
proof (induction n)
  case 0
  show ?case by (simp add: usersBack_def)
next
  case (Suc n)
  then have "take (Suc n) msgs = take n msgs @ [msgs ! n]"
    by (simp add: take_Suc_conv_app_nth)
  with Suc show ?case by (simp add: usersBack_Suc)
qed

lemma countUserTurns_range:
  "n \<le> length msgs \<Longrightarrow> 0 < k \<Longrightarrow> k \<le> length (usersBack msgs n) \<Longrightarrow>
   countUserTurns (drop (usersBack msgs n ! (k - 1)) (take n msgs)) = k"
proof (induction n arbitrary: k)
  case 0
  then show ?case by (simp add: usersBack_def)
next
  case (Suc n)
  then have n: "n < length msgs" by simp
  have tk: "take (Suc n) msgs = take n msgs @ [msgs ! n]"
    using n by (simp add: take_Suc_conv_app_nth)
  show ?case
  proof (cases "Role (msgs ! n) = RoleUser")
    case False
    then have ub: "usersBack msgs (Suc n) = usersBack msgs n" by (simp add: usersBack_Suc)
    have "usersBack msgs n ! (k - 1) < n"
      using Suc.prems ub by (intro usersBack_lt [of _ msgs]) (simp add: nth_mem)
    then show ?thesis
      using Suc.IH [of k] Suc.prems n False unfolding ub tk by simp
  next
    case True
    then have ub: "usersBack msgs (Suc n) = n # usersBack msgs n" by (simp add: usersBack_Suc)
    show ?thesis
    proof (cases "k = 1")
      case True
      with \<open>Role (msgs ! n) = RoleUser\<close> n show ?thesis unfolding ub tk by simp
    next
      case False
      with Suc.prems have k: "0 < k - 1" "k - 1 \<le> length (usersBack msgs n)"
        unfolding ub by simp_all
      have lt: "usersBack msgs n ! (k - 1 - 1) < n"
        using k by (intro usersBack_lt [of _ msgs]) (simp add: nth_mem)
      have nth: "(n # usersBack msgs n) ! (k - 1) = usersBack msgs n ! (k - 1 - 1)"
        using k by (simp add: nth_Cons')
      show ?thesis
        using Suc.IH [OF _ k] n True lt k unfolding ub tk nth by simp
    qed
  qed
qed

lemma countUserTurns_window:
  assumes "u < length msgs" and "0 < k"
  shows "countUserTurns (contextMessages msgs u inc k) \<le> k"
proof -
  have "countUserTurns (drop (contextStart msgs u k) (take (Suc u) msgs)) \<le> k"
  proof (cases "length (usersBack msgs (Suc u)) < k")
    case True
    then show ?thesis
      using assms countUserTurns_take [of "Suc u" msgs] by (simp add: contextStart_def)
  next
    case False
    then show ?thesis
      using assms countUserTurns_range [of "Suc u" msgs k] by (simp add: contextStart_def)
  qed
  moreover have "countUserTurns (contextMessages msgs u inc k) \<le>
      countUserTurns (drop (contextStart msgs u k) (take (Suc u) msgs))"
    unfolding contextMessages_def by (rule countUserTurns_filter)
  ultimately show ?thesis by simp
qed

lemma contextMessages_full:
  "contextMessages msgs u inc 0 = filter (eligible inc) (take (Suc u) msgs)"
  by (simp add: contextMessages_def contextStart_def)

lemma pairsRef_origin:
  assumes "p \<in> set (pairsRef msgs opts)"
  shows "\<exists>i u. i < length msgs \<and> Role (msgs ! i) = RoleAssistant \<and>
           nearestBefore msgs i RoleUser = Some u \<and>
           Assistant p = TrimSpace (Content (msgs ! i)) \<and> User p = promptRef msgs opts u"
proof -
  from assms obtain i where i: "i < length msgs" and p: "p \<in> set (pairsAt msgs opts i)"
    by (auto simp: pairsRef_def)
  have c: "Role (msgs ! i) = RoleAssistant \<and> TrimSpace (Content (msgs ! i)) \<noteq> []"
  proof (rule ccontr)
    assume "\<not> ?thesis"
    then have "pairsAt msgs opts i = []" unfolding pairsAt_def by (simp only: if_False)
    with p show False by simp
  qed
  obtain u where u: "nearestBefore msgs i RoleUser = Some u"
  proof (cases "nearestBefore msgs i RoleUser")
    case None
    with c have "pairsAt msgs opts i = []" by (simp add: pairsAt_def)
    with p show ?thesis by simp
  next
    case (Some u)
    then show ?thesis by (rule that)
  qed
  have "pairsAt msgs opts i = (if promptRef msgs opts u = [] then []
      else [\<lparr>User = promptRef msgs opts u, Assistant = TrimSpace (Content (msgs ! i))\<rparr>])"
    using c u by (simp add: pairsAt_def)
  with p have "p = \<lparr>User = promptRef msgs opts u, Assistant = TrimSpace (Content (msgs ! i))\<rparr>"
    by (cases "promptRef msgs opts u = []") simp_all
  then have "Assistant p = TrimSpace (Content (msgs ! i))" "User p = promptRef msgs opts u"
    by simp_all
  with i c u show ?thesis by blast
qed

text \<open>
  C7, amended. For every message list and every positive \<open>k\<close>, each prompt produced
  with \<open>context = window\<close> and \<open>context_turns = k\<close> is rendered from messages of which at
  most \<open>k\<close> are user turns; each prompt produced with \<open>context = full\<close> is rendered from
  every eligible message from index 0 through the paired user message; and with
  \<open>context_turns = 0\<close> the window is that full history.
\<close>

theorem context_window_law:
  "(0 < k \<and> Context opts = ''window'' \<and> ContextTurns opts = int k \<longrightarrow>
      (\<exists>ps. derivePairs msgs opts = Some ps \<and>
         (\<forall>p \<in> set ps. \<exists>i u. i < length msgs \<and> Role (msgs ! i) = RoleAssistant \<and>
            nearestBefore msgs i RoleUser = Some u \<and>
            Assistant p = TrimSpace (Content (msgs ! i)) \<and>
            User p = joinLines (map (renderLine (effectiveRoleStyle opts))
                       (contextMessages msgs u (IncludeSystem opts) k)) \<and>
            countUserTurns (contextMessages msgs u (IncludeSystem opts) k) \<le> k))) \<and>
   (Context opts = ''full'' \<or> (Context opts = ''window'' \<and> ContextTurns opts = 0) \<longrightarrow>
      (\<exists>ps. derivePairs msgs opts = Some ps \<and>
         (\<forall>p \<in> set ps. \<exists>i u. i < length msgs \<and> Role (msgs ! i) = RoleAssistant \<and>
            nearestBefore msgs i RoleUser = Some u \<and>
            Assistant p = TrimSpace (Content (msgs ! i)) \<and>
            User p = joinLines (map (renderLine (effectiveRoleStyle opts))
                       (filter (eligible (IncludeSystem opts)) (take (Suc u) msgs))))))"
proof (intro conjI impI)
  assume a: "0 < k \<and> Context opts = ''window'' \<and> ContextTurns opts = int k"
  have "\<forall>p \<in> set (pairsRef msgs opts). \<exists>i u. i < length msgs \<and> Role (msgs ! i) = RoleAssistant \<and>
            nearestBefore msgs i RoleUser = Some u \<and>
            Assistant p = TrimSpace (Content (msgs ! i)) \<and>
            User p = joinLines (map (renderLine (effectiveRoleStyle opts))
                       (contextMessages msgs u (IncludeSystem opts) k)) \<and>
            countUserTurns (contextMessages msgs u (IncludeSystem opts) k) \<le> k"
  proof
    fix p assume "p \<in> set (pairsRef msgs opts)"
    then obtain i u where iu: "i < length msgs" "Role (msgs ! i) = RoleAssistant"
        "nearestBefore msgs i RoleUser = Some u" "Assistant p = TrimSpace (Content (msgs ! i))"
        "User p = promptRef msgs opts u"
      using pairsRef_origin by blast
    then have u: "u < length msgs" using nearestBefore_lt [of msgs i RoleUser u] by simp
    have "promptRef msgs opts u = joinLines (map (renderLine (effectiveRoleStyle opts))
                       (contextMessages msgs u (IncludeSystem opts) k))"
      using a by (simp add: promptRef_def renderRef_def)
    with iu countUserTurns_window [OF u, of k "IncludeSystem opts"] a
    show "\<exists>i u. i < length msgs \<and> Role (msgs ! i) = RoleAssistant \<and>
            nearestBefore msgs i RoleUser = Some u \<and>
            Assistant p = TrimSpace (Content (msgs ! i)) \<and>
            User p = joinLines (map (renderLine (effectiveRoleStyle opts))
                       (contextMessages msgs u (IncludeSystem opts) k)) \<and>
            countUserTurns (contextMessages msgs u (IncludeSystem opts) k) \<le> k"
      by auto
  qed
  then show "\<exists>ps. derivePairs msgs opts = Some ps \<and>
         (\<forall>p \<in> set ps. \<exists>i u. i < length msgs \<and> Role (msgs ! i) = RoleAssistant \<and>
            nearestBefore msgs i RoleUser = Some u \<and>
            Assistant p = TrimSpace (Content (msgs ! i)) \<and>
            User p = joinLines (map (renderLine (effectiveRoleStyle opts))
                       (contextMessages msgs u (IncludeSystem opts) k)) \<and>
            countUserTurns (contextMessages msgs u (IncludeSystem opts) k) \<le> k)"
    unfolding derivePairs_eq by blast
next
  assume a: "Context opts = ''full'' \<or> (Context opts = ''window'' \<and> ContextTurns opts = 0)"
  have "\<forall>p \<in> set (pairsRef msgs opts). \<exists>i u. i < length msgs \<and> Role (msgs ! i) = RoleAssistant \<and>
            nearestBefore msgs i RoleUser = Some u \<and>
            Assistant p = TrimSpace (Content (msgs ! i)) \<and>
            User p = joinLines (map (renderLine (effectiveRoleStyle opts))
                       (filter (eligible (IncludeSystem opts)) (take (Suc u) msgs)))"
  proof
    fix p assume "p \<in> set (pairsRef msgs opts)"
    then obtain i u where iu: "i < length msgs" "Role (msgs ! i) = RoleAssistant"
        "nearestBefore msgs i RoleUser = Some u" "Assistant p = TrimSpace (Content (msgs ! i))"
        "User p = promptRef msgs opts u"
      using pairsRef_origin by blast
    have "promptRef msgs opts u = joinLines (map (renderLine (effectiveRoleStyle opts))
                       (filter (eligible (IncludeSystem opts)) (take (Suc u) msgs)))"
      using a by (auto simp: promptRef_def renderRef_def contextMessages_full)
    with iu show "\<exists>i u. i < length msgs \<and> Role (msgs ! i) = RoleAssistant \<and>
            nearestBefore msgs i RoleUser = Some u \<and>
            Assistant p = TrimSpace (Content (msgs ! i)) \<and>
            User p = joinLines (map (renderLine (effectiveRoleStyle opts))
                       (filter (eligible (IncludeSystem opts)) (take (Suc u) msgs)))"
      by auto
  qed
  then show "\<exists>ps. derivePairs msgs opts = Some ps \<and>
         (\<forall>p \<in> set ps. \<exists>i u. i < length msgs \<and> Role (msgs ! i) = RoleAssistant \<and>
            nearestBefore msgs i RoleUser = Some u \<and>
            Assistant p = TrimSpace (Content (msgs ! i)) \<and>
            User p = joinLines (map (renderLine (effectiveRoleStyle opts))
                       (filter (eligible (IncludeSystem opts)) (take (Suc u) msgs))))"
    unfolding derivePairs_eq by blast
qed

theorem context_window_law_witness:
  "(0::nat) < 1 \<and>
   Context (zeroOptions\<lparr>Context := ''window'', ContextTurns := 1\<rparr>) = ''window'' \<and>
   ContextTurns (zeroOptions\<lparr>Context := ''window'', ContextTurns := 1\<rparr>) = int 1 \<and>
   (\<exists>ps. derivePairs windowExample (zeroOptions\<lparr>Context := ''window'', ContextTurns := 1\<rparr>) = Some ps \<and>
      (\<forall>p \<in> set ps. \<exists>i u. i < length windowExample \<and>
         nearestBefore windowExample i RoleUser = Some u \<and>
         countUserTurns (contextMessages windowExample u False 1) \<le> 1)) \<and>
   Context (zeroOptions\<lparr>Context := ''full''\<rparr>) = ''full'' \<and>
   (\<exists>ps. derivePairs windowExample (zeroOptions\<lparr>Context := ''full''\<rparr>) = Some ps \<and>
      (\<forall>p \<in> set ps. \<exists>i u. i < length windowExample \<and>
         nearestBefore windowExample i RoleUser = Some u \<and>
         User p = joinLines (map (renderLine ''labels'')
                    (filter (eligible False) (take (Suc u) windowExample))))) \<and>
   derivePairs windowExample (zeroOptions\<lparr>Context := ''window'', ContextTurns := 1\<rparr>) =
     Some [\<lparr>User = ''User: Q1'', Assistant = ''A1''\<rparr>,
           \<lparr>User = ''User: Q2'', Assistant = ''A2''\<rparr>,
           \<lparr>User = ''User: Q3'', Assistant = ''A3''\<rparr>]"
proof -
  have w: "\<exists>ps. derivePairs windowExample (zeroOptions\<lparr>Context := ''window'', ContextTurns := 1\<rparr>) = Some ps \<and>
      (\<forall>p \<in> set ps. \<exists>i u. i < length windowExample \<and>
         nearestBefore windowExample i RoleUser = Some u \<and>
         countUserTurns (contextMessages windowExample u False 1) \<le> 1)"
    using context_window_law [of 1 "zeroOptions\<lparr>Context := ''window'', ContextTurns := 1\<rparr>"
        windowExample, THEN conjunct1]
    by (simp add: zeroOptions_def) blast
  have f: "\<exists>ps. derivePairs windowExample (zeroOptions\<lparr>Context := ''full''\<rparr>) = Some ps \<and>
      (\<forall>p \<in> set ps. \<exists>i u. i < length windowExample \<and>
         nearestBefore windowExample i RoleUser = Some u \<and>
         User p = joinLines (map (renderLine ''labels'')
                    (filter (eligible False) (take (Suc u) windowExample))))"
    using context_window_law [of 1 "zeroOptions\<lparr>Context := ''full''\<rparr>" windowExample,
        THEN conjunct2]
    by (simp add: zeroOptions_def effectiveRoleStyle_def) blast
  have v: "derivePairs windowExample (zeroOptions\<lparr>Context := ''window'', ContextTurns := 1\<rparr>) =
     Some [\<lparr>User = ''User: Q1'', Assistant = ''A1''\<rparr>,
           \<lparr>User = ''User: Q2'', Assistant = ''A2''\<rparr>,
           \<lparr>User = ''User: Q3'', Assistant = ''A3''\<rparr>]"
    by code_simp
  show ?thesis using w f v by simp
qed

text \<open>
  C7 as stated includes \<open>k = 0\<close>. There the window is the full history: the prompt of
  the example is rendered from one user turn, which is more than \<open>k\<close>.
\<close>

theorem context_window_law_counterexample:
  "derivePairs consecutiveExample (zeroOptions\<lparr>Context := ''window'', ContextTurns := 0\<rparr>) =
     Some [\<lparr>User = ''User: Q'', Assistant = ''A1''\<rparr>, \<lparr>User = ''User: Q'', Assistant = ''A2''\<rparr>] \<and>
   renderContext consecutiveExample 0 False 0 ''labels'' = Some ''User: Q'' \<and>
   contextMessages consecutiveExample 0 False 0 = [msg ''user'' ''Q''] \<and>
   countUserTurns (contextMessages consecutiveExample 0 False 0) = 1 \<and>
   \<not> countUserTurns (contextMessages consecutiveExample 0 False 0) \<le> 0"
proof -
  have a: "derivePairs consecutiveExample (zeroOptions\<lparr>Context := ''window'', ContextTurns := 0\<rparr>) =
     Some [\<lparr>User = ''User: Q'', Assistant = ''A1''\<rparr>, \<lparr>User = ''User: Q'', Assistant = ''A2''\<rparr>]"
    by code_simp
  have b: "renderContext consecutiveExample 0 False 0 ''labels'' = Some ''User: Q''"
    by code_simp
  have c: "contextMessages consecutiveExample 0 False 0 = [msg ''user'' ''Q'']"
    by code_simp
  have d: "countUserTurns (contextMessages consecutiveExample 0 False 0) = 1"
    by code_simp
  show ?thesis unfolding a b c using d c by simp
qed

section \<open>Items\<close>

lemma unmarshalString_empty:
  "unmarshalString v [] = Some s \<Longrightarrow> TrimSpace s \<noteq> [] \<Longrightarrow> v = JString s"
  by (cases v) auto

lemma singleTurn_Some_iff:
  "singleTurn obj = Some p \<longleftrightarrow>
     (\<exists>U A. lookupKey obj ''user'' = Some (JString U) \<and>
            lookupKey obj ''assistant'' = Some (JString A) \<and>
            TrimSpace U \<noteq> [] \<and> TrimSpace A \<noteq> [] \<and>
            p = \<lparr>User = TrimSpace U, Assistant = TrimSpace A\<rparr>)"
proof
  assume "singleTurn obj = Some p"
  then obtain uRaw aRaw u a where
      l: "lookupKey obj ''user'' = Some uRaw" "lookupKey obj ''assistant'' = Some aRaw"
      and d: "unmarshalString uRaw [] = Some u" "unmarshalString aRaw [] = Some a"
      and t: "TrimSpace u \<noteq> []" "TrimSpace a \<noteq> []"
      and p: "p = \<lparr>User = TrimSpace u, Assistant = TrimSpace a\<rparr>"
    by (auto simp: singleTurn_def split: option.splits if_splits)
  have "uRaw = JString u" "aRaw = JString a"
    using d t by (auto dest: unmarshalString_empty)
  with l t p show "\<exists>U A. lookupKey obj ''user'' = Some (JString U) \<and>
            lookupKey obj ''assistant'' = Some (JString A) \<and>
            TrimSpace U \<noteq> [] \<and> TrimSpace A \<noteq> [] \<and>
            p = \<lparr>User = TrimSpace U, Assistant = TrimSpace A\<rparr>"
    by blast
next
  assume "\<exists>U A. lookupKey obj ''user'' = Some (JString U) \<and>
            lookupKey obj ''assistant'' = Some (JString A) \<and>
            TrimSpace U \<noteq> [] \<and> TrimSpace A \<noteq> [] \<and>
            p = \<lparr>User = TrimSpace U, Assistant = TrimSpace A\<rparr>"
  then show "singleTurn obj = Some p"
    by (auto simp: singleTurn_def)
qed

lemma singleTurn_None_iff:
  "singleTurn obj = None \<longleftrightarrow>
     \<not> (\<exists>U A. lookupKey obj ''user'' = Some (JString U) \<and>
            lookupKey obj ''assistant'' = Some (JString A) \<and>
            TrimSpace U \<noteq> [] \<and> TrimSpace A \<noteq> [])"
proof -
  have "singleTurn obj = None \<longleftrightarrow> (\<forall>p. singleTurn obj \<noteq> Some p)" by auto
  also have "\<dots> \<longleftrightarrow> \<not> (\<exists>U A. lookupKey obj ''user'' = Some (JString U) \<and>
            lookupKey obj ''assistant'' = Some (JString A) \<and>
            TrimSpace U \<noteq> [] \<and> TrimSpace A \<noteq> [])"
    unfolding singleTurn_Some_iff by blast
  finally show ?thesis .
qed

text \<open>The item pair deriver never panics either.\<close>

lemma derivePairsFromItemData_eq:
  "derivePairsFromItemData data opts = Some (itemPairsRef data opts)"
  by (simp add: derivePairsFromItemData_def itemPairsRef_def derivePairs_eq pairsRef_def
      split: option.splits)

text \<open>
  C4. When the item data is a JSON object whose keys \<open>user\<close> and \<open>assistant\<close> are both
  present with string values that are non-empty after trimming, the item pair deriver
  returns exactly the one pair of the two trimmed strings, whatever else the object
  holds: a \<open>messages\<close> key is not looked at.
\<close>

theorem item_single_turn:
  assumes "data = Some (JObject obj)"
    and "lookupKey obj ''user'' = Some (JString U)"
    and "lookupKey obj ''assistant'' = Some (JString A)"
    and "TrimSpace U \<noteq> []" and "TrimSpace A \<noteq> []"
  shows "derivePairsFromItemData data opts = Some [\<lparr>User = TrimSpace U, Assistant = TrimSpace A\<rparr>]"
proof -
  have "singleTurn obj = Some \<lparr>User = TrimSpace U, Assistant = TrimSpace A\<rparr>"
    unfolding singleTurn_Some_iff using assms by blast
  then show ?thesis using assms(1) by (simp add: derivePairsFromItemData_def unmarshalObject_def)
qed

theorem item_single_turn_witness:
  "lookupKey bothShapes ''user'' = Some (JString '' What? '') \<and>
   lookupKey bothShapes ''assistant'' = Some (JString ''That.'') \<and>
   lookupKey bothShapes ''messages'' = Some greeting \<and>
   TrimSpace '' What? '' \<noteq> [] \<and> TrimSpace ''That.'' \<noteq> [] \<and>
   derivePairsFromItemData (Some (JObject bothShapes)) zeroOptions =
     Some [\<lparr>User = ''What?'', Assistant = ''That.''\<rparr>]"
proof -
  have h2: "lookupKey bothShapes ''user'' = Some (JString '' What? '')" by code_simp
  have h3: "lookupKey bothShapes ''assistant'' = Some (JString ''That.'')" by code_simp
  have m: "lookupKey bothShapes ''messages'' = Some greeting" by code_simp
  have t1: "TrimSpace '' What? '' = ''What?''" by code_simp
  have t2: "TrimSpace ''That.'' = ''That.''" by code_simp
  have h4: "TrimSpace '' What? '' \<noteq> []" unfolding t1 by simp
  have h5: "TrimSpace ''That.'' \<noteq> []" unfolding t2 by simp
  show ?thesis
    using item_single_turn [OF refl h2 h3 h4 h5, of zeroOptions] h2 h3 m h4 h5
    unfolding t1 t2 by simp
qed

text \<open>
  C8. The item pair deriver always returns a pair sequence, never a failure. The
  sequence is empty when the item data is not valid JSON or is not a JSON object, and
  when it is an object that has no valid single-turn pair and whose \<open>messages\<close> key is
  absent, does not decode to a message sequence, or decodes to the empty sequence.
\<close>

theorem item_malformed_empty:
  "(\<exists>ps. derivePairsFromItemData data opts = Some ps) \<and>
   ((\<forall>kvs. data \<noteq> Some (JObject kvs)) \<longrightarrow> derivePairsFromItemData data opts = Some []) \<and>
   (data = Some (JObject obj) \<and>
    \<not> (\<exists>U A. lookupKey obj ''user'' = Some (JString U) \<and>
             lookupKey obj ''assistant'' = Some (JString A) \<and>
             TrimSpace U \<noteq> [] \<and> TrimSpace A \<noteq> []) \<and>
    (lookupKey obj ''messages'' = None \<or>
     (\<exists>mRaw. lookupKey obj ''messages'' = Some mRaw \<and>
        (unmarshalMessages mRaw = None \<or> unmarshalMessages mRaw = Some [])))
    \<longrightarrow> derivePairsFromItemData data opts = Some [])"
proof (intro conjI impI)
  show "\<exists>ps. derivePairsFromItemData data opts = Some ps"
    by (simp add: derivePairsFromItemData_eq)
next
  assume n: "\<forall>kvs. data \<noteq> Some (JObject kvs)"
  show "derivePairsFromItemData data opts = Some []"
  proof (cases data)
    case None
    then show ?thesis by (simp add: derivePairsFromItemData_def unmarshalObject_def)
  next
    case (Some v)
    with n show ?thesis
      by (cases v)
         (simp_all add: derivePairsFromItemData_def unmarshalObject_def singleTurn_def
            lookupKey_def)
  qed
next
  assume a: "data = Some (JObject obj) \<and>
    \<not> (\<exists>U A. lookupKey obj ''user'' = Some (JString U) \<and>
             lookupKey obj ''assistant'' = Some (JString A) \<and>
             TrimSpace U \<noteq> [] \<and> TrimSpace A \<noteq> []) \<and>
    (lookupKey obj ''messages'' = None \<or>
     (\<exists>mRaw. lookupKey obj ''messages'' = Some mRaw \<and>
        (unmarshalMessages mRaw = None \<or> unmarshalMessages mRaw = Some [])))"
  then have s: "singleTurn obj = None" unfolding singleTurn_None_iff by blast
  from a have d: "unmarshalObject data = Some obj" by (simp add: unmarshalObject_def)
  from a show "derivePairsFromItemData data opts = Some []"
    unfolding derivePairsFromItemData_def d using s by auto
qed

theorem item_malformed_empty_witness:
  "derivePairsFromItemData None zeroOptions = Some [] \<and>
   derivePairsFromItemData (Some (JArray [JString ''not'', JString ''an'', JString ''object'']))
     zeroOptions = Some [] \<and>
   derivePairsFromItemData (Some (JObject [(''question'', JString ''Hi'')])) zeroOptions = Some [] \<and>
   derivePairsFromItemData (Some (JObject [(''messages'', JArray [])])) zeroOptions = Some [] \<and>
   derivePairsFromItemData
     (Some (JObject [(''messages'', JArray [JObject [(''role'', JNumber ''1'')]])])) zeroOptions
     = Some []"
proof -
  have a: "derivePairsFromItemData None zeroOptions = Some []"
    using item_malformed_empty [of None zeroOptions] by simp
  have b: "derivePairsFromItemData (Some (JArray [JString ''not'', JString ''an'', JString ''object'']))
     zeroOptions = Some []"
    using item_malformed_empty
      [of "Some (JArray [JString ''not'', JString ''an'', JString ''object''])" zeroOptions]
    by simp
  have c1: "lookupKey [(''question'', JString ''Hi'')] ''user'' = None" by code_simp
  have c2: "lookupKey [(''question'', JString ''Hi'')] ''messages'' = None" by code_simp
  have c: "derivePairsFromItemData (Some (JObject [(''question'', JString ''Hi'')])) zeroOptions
      = Some []"
    using item_malformed_empty
      [of "Some (JObject [(''question'', JString ''Hi'')])" zeroOptions
          "[(''question'', JString ''Hi'')]"] c1 c2
    by simp
  have d1: "lookupKey [(''messages'', JArray [])] ''user'' = None" by code_simp
  have d2: "lookupKey [(''messages'', JArray [])] ''messages'' = Some (JArray [])" by code_simp
  have d: "derivePairsFromItemData (Some (JObject [(''messages'', JArray [])])) zeroOptions = Some []"
    using item_malformed_empty
      [of "Some (JObject [(''messages'', JArray [])])" zeroOptions "[(''messages'', JArray [])]"]
      d1 d2
    by simp
  have e1: "lookupKey [(''messages'', JArray [JObject [(''role'', JNumber ''1'')]])] ''user'' = None"
    by code_simp
  have e2: "lookupKey [(''messages'', JArray [JObject [(''role'', JNumber ''1'')]])] ''messages''
      = Some (JArray [JObject [(''role'', JNumber ''1'')]])"
    by code_simp
  have e3: "unmarshalMessages (JArray [JObject [(''role'', JNumber ''1'')]]) = None"
    by code_simp
  have e: "derivePairsFromItemData
     (Some (JObject [(''messages'', JArray [JObject [(''role'', JNumber ''1'')]])])) zeroOptions
     = Some []"
    using item_malformed_empty
      [of "Some (JObject [(''messages'', JArray [JObject [(''role'', JNumber ''1'')]])])"
          zeroOptions "[(''messages'', JArray [JObject [(''role'', JNumber ''1'')]])]"]
      e1 e2 e3
    by simp
  show ?thesis using a b c d e by simp
qed

text \<open>
  C9. When the keys \<open>user\<close> and \<open>assistant\<close> are both present but do not give two
  strings that are non-empty after trimming, the single-turn shape does not stop the
  derivation: if a \<open>messages\<close> key is present and decodes to a non-empty message
  sequence, the result is what the pair deriver makes of that sequence.
\<close>

theorem item_messages_fallthrough:
  assumes "data = Some (JObject obj)"
    and "lookupKey obj ''user'' = Some u" and "lookupKey obj ''assistant'' = Some a"
    and "\<not> (\<exists>U A. u = JString U \<and> a = JString A \<and> TrimSpace U \<noteq> [] \<and> TrimSpace A \<noteq> [])"
    and "lookupKey obj ''messages'' = Some mRaw"
    and "unmarshalMessages mRaw = Some msgs" and "msgs \<noteq> []"
  shows "derivePairsFromItemData data opts = derivePairs msgs opts"
proof -
  have "singleTurn obj = None"
    unfolding singleTurn_None_iff using assms(2,3,4) by auto
  then show ?thesis
    using assms by (simp add: derivePairsFromItemData_def unmarshalObject_def)
qed

theorem item_messages_fallthrough_witness:
  "lookupKey brokenSingleTurn ''user'' = Some (JNumber ''7'') \<and>
   lookupKey brokenSingleTurn ''assistant'' = Some (JString ''That.'') \<and>
   lookupKey brokenSingleTurn ''messages'' = Some greeting \<and>
   unmarshalMessages greeting = Some [msg ''user'' ''Hi'', msg ''assistant'' '' Hello ''] \<and>
   derivePairsFromItemData (Some (JObject brokenSingleTurn)) zeroOptions =
     Some [\<lparr>User = ''Hi'', Assistant = ''Hello''\<rparr>]"
proof -
  have h2: "lookupKey brokenSingleTurn ''user'' = Some (JNumber ''7'')" by code_simp
  have h3: "lookupKey brokenSingleTurn ''assistant'' = Some (JString ''That.'')" by code_simp
  have h4: "\<not> (\<exists>U A. JNumber ''7'' = JString U \<and> JString ''That.'' = JString A \<and>
      TrimSpace U \<noteq> [] \<and> TrimSpace A \<noteq> [])" by simp
  have h5: "lookupKey brokenSingleTurn ''messages'' = Some greeting" by code_simp
  have h6: "unmarshalMessages greeting = Some [msg ''user'' ''Hi'', msg ''assistant'' '' Hello '']"
    by code_simp
  have h7: "[msg ''user'' ''Hi'', msg ''assistant'' '' Hello ''] \<noteq> []" by simp
  have v: "derivePairs [msg ''user'' ''Hi'', msg ''assistant'' '' Hello ''] zeroOptions =
      Some [\<lparr>User = ''Hi'', Assistant = ''Hello''\<rparr>]" by code_simp
  show ?thesis
    using item_messages_fallthrough [OF refl h2 h3 h4 h5 h6 h7, of zeroOptions] h2 h3 h5 h6 v
    by simp
qed

section \<open>The streams\<close>

lemma capped_Nil [simp]: "capped n [] = []"
  by (simp add: capped_def)

lemma streamConversationsRows_uncapped:
  "\<not> MaxExamples opts > 0 \<Longrightarrow>
   streamConversationsRows db opts rows count w = (None, w @ map (conversationObject db) rows)"
  by (induction rows arbitrary: count w) simp_all

lemma streamConversationsRows_capped:
  "MaxExamples opts > 0 \<Longrightarrow> count < MaxExamples opts \<Longrightarrow>
   streamConversationsRows db opts rows count w =
     (None, w @ take (nat (MaxExamples opts - count)) (map (conversationObject db) rows))"
proof (induction rows arbitrary: count w)
  case Nil
  show ?case by simp
next
  case (Cons row rows)
  show ?case
  proof (cases "count + 1 \<ge> MaxExamples opts")
    case True
    with Cons.prems have "nat (MaxExamples opts - count) = 1" by simp
    with True Cons.prems show ?thesis by simp
  next
    case False
    then have "nat (MaxExamples opts - count) = Suc (nat (MaxExamples opts - (count + 1)))"
      by simp
    with False Cons.prems Cons.IH [of "count + 1"] show ?thesis by simp
  qed
qed

lemma streamConversations_eq:
  "streamConversations db w opts =
     (None, w @ capped (MaxExamples opts) (map (conversationObject db) (conversationsFilterQuery db opts)))"
  using streamConversationsRows_uncapped [of opts db _ 0 w]
    streamConversationsRows_capped [of opts 0 db _ w]
  by (simp add: streamConversations_def capped_def)

lemma streamItemsRawRows_uncapped:
  "\<not> MaxExamples opts > 0 \<Longrightarrow>
   streamItemsRawRows opts rows count w = (None, w @ map (\<lambda>row. OutItem (di_data row)) rows)"
  by (induction rows arbitrary: count w) simp_all

lemma streamItemsRawRows_capped:
  "MaxExamples opts > 0 \<Longrightarrow> count < MaxExamples opts \<Longrightarrow>
   streamItemsRawRows opts rows count w =
     (None, w @ take (nat (MaxExamples opts - count)) (map (\<lambda>row. OutItem (di_data row)) rows))"
proof (induction rows arbitrary: count w)
  case Nil
  show ?case by simp
next
  case (Cons row rows)
  show ?case
  proof (cases "count + 1 \<ge> MaxExamples opts")
    case True
    with Cons.prems have "nat (MaxExamples opts - count) = 1" by simp
    with True Cons.prems show ?thesis by simp
  next
    case False
    then have "nat (MaxExamples opts - count) = Suc (nat (MaxExamples opts - (count + 1)))"
      by simp
    with False Cons.prems Cons.IH [of "count + 1"] show ?thesis by simp
  qed
qed

lemma streamDatasetItemsRaw_eq:
  "DatasetID opts > 0 \<Longrightarrow>
   streamDatasetItemsRaw db w opts =
     (None, w @ capped (MaxExamples opts)
        (map (\<lambda>row. OutItem (di_data row)) (datasetItemsQuery db (DatasetID opts))))"
  using streamItemsRawRows_uncapped [of opts _ 0 w] streamItemsRawRows_capped [of opts 0 _ w]
  by (simp add: streamDatasetItemsRaw_def capped_def)

lemma streamItemsWithMetaRows_uncapped:
  "\<not> MaxExamples opts > 0 \<Longrightarrow>
   streamItemsWithMetaRows opts rows count w =
     (if list_all marshals rows then None else Some ErrMarshal,
      w @ map itemWithMeta (takeWhile marshals rows))"
  by (induction rows arbitrary: count w) (simp_all add: marshals_def)

lemma streamItemsWithMetaRows_capped:
  "MaxExamples opts > 0 \<Longrightarrow> count < MaxExamples opts \<Longrightarrow>
   streamItemsWithMetaRows opts rows count w =
     (if nat (MaxExamples opts - count) \<le> length (takeWhile marshals rows) then None
      else if list_all marshals rows then None else Some ErrMarshal,
      w @ take (nat (MaxExamples opts - count)) (map itemWithMeta (takeWhile marshals rows)))"
proof (induction rows arbitrary: count w)
  case Nil
  then show ?case by simp
next
  case (Cons row rows)
  show ?case
  proof (cases "marshals row")
    case False
    with Cons.prems show ?thesis by (simp add: marshals_def)
  next
    case m: True
    then have d: "di_data row \<noteq> None" by (simp add: marshals_def)
    show ?thesis
    proof (cases "count + 1 \<ge> MaxExamples opts")
      case True
      with Cons.prems have "nat (MaxExamples opts - count) = 1" by simp
      with True Cons.prems m d show ?thesis by simp
    next
      case False
      then have "nat (MaxExamples opts - count) = Suc (nat (MaxExamples opts - (count + 1)))"
        by simp
      with False Cons.prems Cons.IH [of "count + 1"] m d show ?thesis by simp
    qed
  qed
qed

lemma streamDatasetItemsWithMeta_eq:
  "DatasetID opts > 0 \<Longrightarrow>
   streamDatasetItemsWithMeta db w opts =
     (cappedError (MaxExamples opts)
        (if list_all marshals (datasetItemsQuery db (DatasetID opts)) then None
         else Some ErrMarshal,
         map itemWithMeta (takeWhile marshals (datasetItemsQuery db (DatasetID opts)))),
      w @ capped (MaxExamples opts)
        (map itemWithMeta (takeWhile marshals (datasetItemsQuery db (DatasetID opts)))))"
  using streamItemsWithMetaRows_uncapped [of opts _ 0 w]
    streamItemsWithMetaRows_capped [of opts 0 _ w]
  by (simp add: streamDatasetItemsWithMeta_def capped_def cappedError_def)

lemma encodePairs_uncapped:
  "\<not> MaxExamples opts > 0 \<Longrightarrow>
   encodePairs opts ps count w = (False, count + int (length ps), w @ map OutPair ps)"
  by (induction ps arbitrary: count w) simp_all

lemma encodePairs_capped:
  "MaxExamples opts > 0 \<Longrightarrow> count < MaxExamples opts \<Longrightarrow>
   encodePairs opts ps count w =
     (if nat (MaxExamples opts - count) \<le> length ps
      then (True, MaxExamples opts, w @ map OutPair (take (nat (MaxExamples opts - count)) ps))
      else (False, count + int (length ps), w @ map OutPair ps))"
proof (induction ps arbitrary: count w)
  case Nil
  then show ?case by simp
next
  case (Cons p ps)
  show ?case
  proof (cases "count + 1 \<ge> MaxExamples opts")
    case True
    with Cons.prems have "nat (MaxExamples opts - count) = 1" "count + 1 = MaxExamples opts"
      by simp_all
    with True Cons.prems show ?thesis by simp
  next
    case False
    then have "nat (MaxExamples opts - count) = Suc (nat (MaxExamples opts - (count + 1)))"
      by simp
    with False Cons.prems Cons.IH [of "count + 1"] show ?thesis by (simp add: add.assoc)
  qed
qed

text \<open>
  A loop that derives a list of pairs from each row and passes it to \<open>encodePairs\<close>
  writes the concatenation of those lists, cut at the cap.
\<close>

lemma streamPairsRows_uncapped:
  "\<not> MaxExamples opts > 0 \<Longrightarrow>
   streamPairsRows db opts rows count w =
     Some (None, w @ concat (map (\<lambda>row. map OutPair (pairsRef (loadMessages db (c_id row)) opts)) rows))"
  by (induction rows arbitrary: count w) (simp_all add: derivePairs_eq encodePairs_uncapped)

lemma streamPairsRows_capped:
  "MaxExamples opts > 0 \<Longrightarrow> count < MaxExamples opts \<Longrightarrow>
   streamPairsRows db opts rows count w =
     Some (None, w @ take (nat (MaxExamples opts - count))
        (concat (map (\<lambda>row. map OutPair (pairsRef (loadMessages db (c_id row)) opts)) rows)))"
proof (induction rows arbitrary: count w)
  case Nil
  show ?case by simp
next
  case (Cons row rows)
  let ?ps = "pairsRef (loadMessages db (c_id row)) opts"
  show ?case
  proof (cases "nat (MaxExamples opts - count) \<le> length ?ps")
    case True
    with Cons.prems show ?thesis
      by (simp add: derivePairs_eq encodePairs_capped take_map)
  next
    case False
    then have c: "count + int (length ?ps) < MaxExamples opts" by simp
    have n: "nat (MaxExamples opts - (count + int (length ?ps))) =
        nat (MaxExamples opts - count) - length ?ps" by simp
    show ?thesis
      using False Cons.prems Cons.IH [OF Cons.prems(1) c]
      by (simp add: derivePairs_eq encodePairs_capped n)
  qed
qed

lemma streamPairs_eq:
  "streamPairs db w opts =
     Some (None, w @ capped (MaxExamples opts)
        (concat (map (\<lambda>row. map OutPair (pairsRef (loadMessages db (c_id row)) opts))
                   (conversationsFilterQuery db opts))))"
  using streamPairsRows_uncapped [of opts db _ 0 w] streamPairsRows_capped [of opts 0 db _ w]
  by (simp add: streamPairs_def capped_def)

lemma streamItemPairsRows_uncapped:
  "\<not> MaxExamples opts > 0 \<Longrightarrow>
   streamItemPairsRows opts rows count w =
     Some (None, w @ concat (map (\<lambda>row. map OutPair (itemPairsRef (di_data row) opts)) rows))"
  by (induction rows arbitrary: count w)
     (simp_all add: derivePairsFromItemData_eq encodePairs_uncapped)

lemma streamItemPairsRows_capped:
  "MaxExamples opts > 0 \<Longrightarrow> count < MaxExamples opts \<Longrightarrow>
   streamItemPairsRows opts rows count w =
     Some (None, w @ take (nat (MaxExamples opts - count))
        (concat (map (\<lambda>row. map OutPair (itemPairsRef (di_data row) opts)) rows)))"
proof (induction rows arbitrary: count w)
  case Nil
  show ?case by simp
next
  case (Cons row rows)
  let ?ps = "itemPairsRef (di_data row) opts"
  show ?case
  proof (cases "nat (MaxExamples opts - count) \<le> length ?ps")
    case True
    with Cons.prems show ?thesis
      by (simp add: derivePairsFromItemData_eq encodePairs_capped take_map)
  next
    case False
    then have c: "count + int (length ?ps) < MaxExamples opts" by simp
    have n: "nat (MaxExamples opts - (count + int (length ?ps))) =
        nat (MaxExamples opts - count) - length ?ps" by simp
    show ?thesis
      using False Cons.prems Cons.IH [OF Cons.prems(1) c]
      by (simp add: derivePairsFromItemData_eq encodePairs_capped n)
  qed
qed

lemma streamPairsFromDatasetItems_eq:
  "DatasetID opts > 0 \<Longrightarrow>
   streamPairsFromDatasetItems db w opts =
     Some (None, w @ capped (MaxExamples opts)
        (concat (map (\<lambda>row. map OutPair (itemPairsRef (di_data row) opts))
                   (datasetItemsQuery db (DatasetID opts)))))"
  using streamItemPairsRows_uncapped [of opts _ 0 w] streamItemPairsRows_capped [of opts 0 _ w]
  by (simp add: streamPairsFromDatasetItems_def capped_def)

lemma cappedError_None [simp]: "cappedError n (None, xs) = None"
  by (simp add: cappedError_def)

lemma cappedError_Nil [simp]: "cappedError n (e, []) = e"
  by (auto simp: cappedError_def)

lemma streamByType_eq:
  "streamByType db w opts =
     Some (cappedError (MaxExamples opts) (conversationRecords db opts),
           w @ capped (MaxExamples opts) (snd (conversationRecords db opts)))"
  by (simp add: streamByType_def conversationRecords_def streamPairs_eq streamConversations_eq)

lemma streamDatasetItems_eq:
  "DatasetID opts > 0 \<Longrightarrow>
   streamDatasetItems db w opts =
     Some (cappedError (MaxExamples opts) (itemRecords db opts),
           w @ capped (MaxExamples opts) (snd (itemRecords db opts)))"
  by (simp add: streamDatasetItems_def itemRecords_def streamPairsFromDatasetItems_eq
      streamDatasetItemsRaw_eq streamDatasetItemsWithMeta_eq)

lemma fillDefaults_fields [simp]:
  "DatasetID (fillDefaults opts) = DatasetID opts"
  "MaxExamples (fillDefaults opts) = MaxExamples opts"
  "Type (fillDefaults opts) = (if Type opts = [] then ''pairs'' else Type opts)"
  by (simp_all add: fillDefaults_def)

text \<open>
  The export never panics. It leaves in the sink what was there, followed by the
  records the data derives up to the cap, and returns the error of the capped export.
\<close>

lemma StreamExport_eq:
  "StreamExport db w opts =
     Some (cappedError (MaxExamples opts) (exportRecords db (fillDefaults opts)),
           w @ capped (MaxExamples opts) (snd (exportRecords db (fillDefaults opts))))"
proof (cases "DatasetID opts > 0")
  case False
  then show ?thesis
    by (simp add: StreamExport_def exportRecords_def streamByType_eq Let_def)
next
  case True
  then have d: "DatasetID (fillDefaults opts) > 0" by simp
  show ?thesis
    using True streamDatasetItems_eq [OF d, of db w]
    by (simp add: StreamExport_def exportRecords_def streamByType_eq Let_def
        split: sum.splits)
qed

section \<open>The export coordinator\<close>

lemma pairsRef_cong:
  assumes "\<And>u. promptRef msgs o1 u = promptRef msgs o2 u"
  shows "pairsRef msgs o1 = pairsRef msgs o2"
proof -
  have "pairsAt msgs o1 = pairsAt msgs o2"
    by (intro ext) (simp add: pairsAt_def assms split: option.splits)
  then show ?thesis by (simp add: pairsRef_def)
qed

lemma itemPairsRef_cong:
  assumes "\<And>msgs. pairsRef msgs o1 = pairsRef msgs o2"
  shows "itemPairsRef data o1 = itemPairsRef data o2"
  by (simp add: itemPairsRef_def assms split: option.splits)

lemma conversationsFilterQuery_cong:
  assumes "DatasetID o1 = DatasetID o2" and "Split o1 = Split o2" and "Status o1 = Status o2"
  shows "conversationsFilterQuery db o1 = conversationsFilterQuery db o2"
  by (simp add: conversationsFilterQuery_def assms)

lemma exportRecords_cong:
  assumes "Type o1 = Type o2" and "DatasetID o1 = DatasetID o2" and "Split o1 = Split o2"
    and "Status o1 = Status o2" and "\<And>msgs u. promptRef msgs o1 u = promptRef msgs o2 u"
  shows "exportRecords db o1 = exportRecords db o2"
proof -
  have p: "\<And>msgs. pairsRef msgs o1 = pairsRef msgs o2"
    by (rule pairsRef_cong) (rule assms(5))
  have i: "\<And>data. itemPairsRef data o1 = itemPairsRef data o2"
    by (rule itemPairsRef_cong) (rule p)
  have q: "conversationsFilterQuery db o1 = conversationsFilterQuery db o2"
    using assms(2,3,4) by (rule conversationsFilterQuery_cong)
  have c: "conversationRecords db o1 = conversationRecords db o2"
    by (simp add: conversationRecords_def assms(1) p q)
  have r: "itemRecords db o1 = itemRecords db o2"
    by (simp add: itemRecords_def assms(1,2) i)
  show ?thesis by (simp add: exportRecords_def assms(2) c r split: sum.splits)
qed

lemma exportRecords_MaxExamples:
  "exportRecords db (fillDefaults (opts\<lparr>MaxExamples := n\<rparr>)) = exportRecords db (fillDefaults opts)"
  by (rule exportRecords_cong)
     (simp_all add: fillDefaults_def promptRef_def effectiveRoleStyle_def)

text \<open>
  C3. For every export run with \<open>max_examples = N > 0\<close> the sink receives exactly the
  first \<open>N\<close> of the records that the data of the run derives (\<open>exportRecords\<close>:
  for each stream, the rows its query selects and what each row contributes), that is
  \<open>min N total\<close> records, and the run with \<open>max_examples = 0\<close> receives all of them.
  The cap counts records over the whole stream, so it can cut the pairs of one
  conversation or item. A run that reaches the cap returns no error.
\<close>

theorem max_examples_cap:
  assumes "MaxExamples opts = N" and "N > 0"
  shows "StreamExport db w opts =
           Some (cappedError N (exportRecords db (fillDefaults opts)),
                 w @ take (nat N) (snd (exportRecords db (fillDefaults opts)))) \<and>
         StreamExport db w (opts\<lparr>MaxExamples := 0\<rparr>) =
           Some (fst (exportRecords db (fillDefaults opts)),
                 w @ snd (exportRecords db (fillDefaults opts))) \<and>
         length (take (nat N) (snd (exportRecords db (fillDefaults opts)))) =
           min (nat N) (length (snd (exportRecords db (fillDefaults opts))))"
proof -
  let ?r = "exportRecords db (fillDefaults opts)"
  have "StreamExport db w (opts\<lparr>MaxExamples := 0\<rparr>) = Some (fst ?r, w @ snd ?r)"
    unfolding StreamExport_eq exportRecords_MaxExamples by (simp add: capped_def cappedError_def)
  moreover have "StreamExport db w opts = Some (cappedError N ?r, w @ take (nat N) (snd ?r))"
    unfolding StreamExport_eq using assms by (simp add: capped_def)
  ultimately show ?thesis by simp
qed

theorem max_examples_cap_witness:
  "StreamExport exampleDB [] (zeroOptions\<lparr>MaxExamples := 1\<rparr>) =
     Some (None, [OutPair \<lparr>User = ''Q'', Assistant = ''A1''\<rparr>]) \<and>
   StreamExport exampleDB [] (zeroOptions\<lparr>MaxExamples := 0\<rparr>) =
     Some (None, [OutPair \<lparr>User = ''Q'', Assistant = ''A1''\<rparr>,
                  OutPair \<lparr>User = ''Q'', Assistant = ''A2''\<rparr>,
                  OutPair \<lparr>User = ''Q2'', Assistant = ''A3''\<rparr>]) \<and>
   StreamExport exampleDB [] (zeroOptions\<lparr>Type := ''conversations'', MaxExamples := 1\<rparr>) =
     Some (None, [OutConversation 1 ''train'' ''approved'' [] [] [] consecutiveExample]) \<and>
   StreamExport exampleDB [] (zeroOptions\<lparr>Type := ''conversations'', MaxExamples := 0\<rparr>) =
     Some (None, [OutConversation 1 ''train'' ''approved'' [] [] [] consecutiveExample,
                  OutConversation 2 ''train'' ''approved'' [] [] []
                    [msg ''user'' ''Q2'', msg ''assistant'' ''A3'']]) \<and>
   StreamExport exampleDB [] (zeroOptions\<lparr>DatasetID := 2, MaxExamples := 1\<rparr>) =
     Some (None, [OutPair \<lparr>User = ''What?'', Assistant = ''That.''\<rparr>]) \<and>
   StreamExport exampleDB [] (zeroOptions\<lparr>DatasetID := 2, MaxExamples := 0\<rparr>) =
     Some (None, [OutPair \<lparr>User = ''What?'', Assistant = ''That.''\<rparr>,
                  OutPair \<lparr>User = ''Hi'', Assistant = ''Hello''\<rparr>]) \<and>
   StreamExport exampleDB [] (zeroOptions\<lparr>Type := ''items'', DatasetID := 2, MaxExamples := 2\<rparr>) =
     Some (None, [OutItem (Some (JObject bothShapes)),
                  OutItem (Some (JObject [(''messages'', greeting)]))]) \<and>
   StreamExport exampleDB []
       (zeroOptions\<lparr>Type := ''items_with_meta'', DatasetID := 2, MaxExamples := 1\<rparr>) =
     Some (None, [OutItemWithMeta 1 2 ''a'' (Some (JObject bothShapes))]) \<and>
   StreamExport brokenItemsDB []
       (zeroOptions\<lparr>Type := ''items_with_meta'', DatasetID := 1, MaxExamples := 1\<rparr>) =
     Some (None, [OutItemWithMeta 1 1 ''a'' (Some JNull)]) \<and>
   StreamExport brokenItemsDB []
       (zeroOptions\<lparr>Type := ''items_with_meta'', DatasetID := 1, MaxExamples := 0\<rparr>) =
     Some (Some ErrMarshal, [OutItemWithMeta 1 1 ''a'' (Some JNull)])"
proof -
  have r1: "exportRecords exampleDB (fillDefaults (zeroOptions\<lparr>MaxExamples := 1\<rparr>)) =
     (None, [OutPair \<lparr>User = ''Q'', Assistant = ''A1''\<rparr>,
             OutPair \<lparr>User = ''Q'', Assistant = ''A2''\<rparr>,
             OutPair \<lparr>User = ''Q2'', Assistant = ''A3''\<rparr>])"
    by code_simp
  have r2: "exportRecords exampleDB
       (fillDefaults (zeroOptions\<lparr>Type := ''conversations'', MaxExamples := 1\<rparr>)) =
     (None, [OutConversation 1 ''train'' ''approved'' [] [] [] consecutiveExample,
             OutConversation 2 ''train'' ''approved'' [] [] []
               [msg ''user'' ''Q2'', msg ''assistant'' ''A3'']])"
    by code_simp
  have r3: "exportRecords exampleDB (fillDefaults (zeroOptions\<lparr>DatasetID := 2, MaxExamples := 1\<rparr>)) =
     (None, [OutPair \<lparr>User = ''What?'', Assistant = ''That.''\<rparr>,
             OutPair \<lparr>User = ''Hi'', Assistant = ''Hello''\<rparr>])"
    by code_simp
  have r4: "exportRecords exampleDB
       (fillDefaults (zeroOptions\<lparr>Type := ''items'', DatasetID := 2, MaxExamples := 2\<rparr>)) =
     (None, [OutItem (Some (JObject bothShapes)),
             OutItem (Some (JObject [(''messages'', greeting)])),
             OutItem (Some (JArray [JString ''not'', JString ''an'', JString ''object'']))])"
    by code_simp
  have r5: "exportRecords exampleDB
       (fillDefaults (zeroOptions\<lparr>Type := ''items_with_meta'', DatasetID := 2, MaxExamples := 1\<rparr>)) =
     (None, [OutItemWithMeta 1 2 ''a'' (Some (JObject bothShapes)),
             OutItemWithMeta 2 2 ''b'' (Some (JObject [(''messages'', greeting)])),
             OutItemWithMeta 3 2 ''c''
               (Some (JArray [JString ''not'', JString ''an'', JString ''object'']))])"
    by code_simp
  have r6: "exportRecords brokenItemsDB
       (fillDefaults (zeroOptions\<lparr>Type := ''items_with_meta'', DatasetID := 1, MaxExamples := 1\<rparr>)) =
     (Some ErrMarshal, [OutItemWithMeta 1 1 ''a'' (Some JNull)])"
    by code_simp
  have a: "StreamExport exampleDB [] (zeroOptions\<lparr>MaxExamples := 1\<rparr>) =
       Some (None, [OutPair \<lparr>User = ''Q'', Assistant = ''A1''\<rparr>])"
    "StreamExport exampleDB [] (zeroOptions\<lparr>MaxExamples := 0\<rparr>) =
     Some (None, [OutPair \<lparr>User = ''Q'', Assistant = ''A1''\<rparr>,
                  OutPair \<lparr>User = ''Q'', Assistant = ''A2''\<rparr>,
                  OutPair \<lparr>User = ''Q2'', Assistant = ''A3''\<rparr>])"
    using max_examples_cap [of "zeroOptions\<lparr>MaxExamples := 1\<rparr>" 1 exampleDB "[]"]
    unfolding r1 by (simp_all add: cappedError_def)
  have b: "StreamExport exampleDB [] (zeroOptions\<lparr>Type := ''conversations'', MaxExamples := 1\<rparr>) =
     Some (None, [OutConversation 1 ''train'' ''approved'' [] [] [] consecutiveExample])"
    "StreamExport exampleDB [] (zeroOptions\<lparr>Type := ''conversations'', MaxExamples := 0\<rparr>) =
     Some (None, [OutConversation 1 ''train'' ''approved'' [] [] [] consecutiveExample,
                  OutConversation 2 ''train'' ''approved'' [] [] []
                    [msg ''user'' ''Q2'', msg ''assistant'' ''A3'']])"
    using max_examples_cap
      [of "zeroOptions\<lparr>Type := ''conversations'', MaxExamples := 1\<rparr>" 1 exampleDB "[]"]
    unfolding r2 by (simp_all add: cappedError_def)
  have c: "StreamExport exampleDB [] (zeroOptions\<lparr>DatasetID := 2, MaxExamples := 1\<rparr>) =
     Some (None, [OutPair \<lparr>User = ''What?'', Assistant = ''That.''\<rparr>])"
    "StreamExport exampleDB [] (zeroOptions\<lparr>DatasetID := 2, MaxExamples := 0\<rparr>) =
     Some (None, [OutPair \<lparr>User = ''What?'', Assistant = ''That.''\<rparr>,
                  OutPair \<lparr>User = ''Hi'', Assistant = ''Hello''\<rparr>])"
    using max_examples_cap [of "zeroOptions\<lparr>DatasetID := 2, MaxExamples := 1\<rparr>" 1 exampleDB "[]"]
    unfolding r3 by (simp_all add: cappedError_def)
  have d: "StreamExport exampleDB []
       (zeroOptions\<lparr>Type := ''items'', DatasetID := 2, MaxExamples := 2\<rparr>) =
     Some (None, [OutItem (Some (JObject bothShapes)),
                  OutItem (Some (JObject [(''messages'', greeting)]))])"
    using max_examples_cap
      [of "zeroOptions\<lparr>Type := ''items'', DatasetID := 2, MaxExamples := 2\<rparr>" 2 exampleDB "[]"]
    unfolding r4 by (simp add: cappedError_def)
  have e: "StreamExport exampleDB []
       (zeroOptions\<lparr>Type := ''items_with_meta'', DatasetID := 2, MaxExamples := 1\<rparr>) =
     Some (None, [OutItemWithMeta 1 2 ''a'' (Some (JObject bothShapes))])"
    using max_examples_cap
      [of "zeroOptions\<lparr>Type := ''items_with_meta'', DatasetID := 2, MaxExamples := 1\<rparr>" 1
          exampleDB "[]"]
    unfolding r5 by (simp add: cappedError_def)
  have f: "StreamExport brokenItemsDB []
       (zeroOptions\<lparr>Type := ''items_with_meta'', DatasetID := 1, MaxExamples := 1\<rparr>) =
     Some (None, [OutItemWithMeta 1 1 ''a'' (Some JNull)])"
    "StreamExport brokenItemsDB []
       (zeroOptions\<lparr>Type := ''items_with_meta'', DatasetID := 1, MaxExamples := 0\<rparr>) =
     Some (Some ErrMarshal, [OutItemWithMeta 1 1 ''a'' (Some JNull)])"
    using max_examples_cap
      [of "zeroOptions\<lparr>Type := ''items_with_meta'', DatasetID := 1, MaxExamples := 1\<rparr>" 1
          brokenItemsDB "[]"]
    unfolding r6 by (simp_all add: cappedError_def)
  show ?thesis using a b c d e f by simp
qed

text \<open>
  C5. A request whose type is illegal for the resolved dataset kind is answered with
  an error and the sink is left as it was: type \<open>conversations\<close> against a dataset of
  kind \<open>items\<close>; type \<open>items\<close> or \<open>items_with_meta\<close> against a dataset of another kind
  (such as \<open>conversations\<close>) or without a dataset id.
\<close>

theorem illegal_type_rejected:
  assumes "(DatasetID opts > 0 \<and> GetDataset db (DatasetID opts) = Inr ds \<and>
            EqualFold_items (d_kind ds) \<and> Type opts = ''conversations'') \<or>
           (DatasetID opts > 0 \<and> GetDataset db (DatasetID opts) = Inr ds \<and>
            \<not> EqualFold_items (d_kind ds) \<and>
            (Type opts = ''items'' \<or> Type opts = ''items_with_meta'')) \<or>
           (\<not> DatasetID opts > 0 \<and> (Type opts = ''items'' \<or> Type opts = ''items_with_meta''))"
  shows "StreamExport db w opts =
           Some (Some (if Type opts = ''conversations''
                       then ErrUnknownItemsExportType (Type opts)
                       else ErrUnknownExportType (Type opts)), w)"
  using assms
  by (auto simp: StreamExport_eq exportRecords_def itemRecords_def conversationRecords_def)

theorem illegal_type_rejected_witness:
  "StreamExport exampleDB [OutItem None] (zeroOptions\<lparr>Type := ''conversations'', DatasetID := 2\<rparr>) =
     Some (Some (ErrUnknownItemsExportType ''conversations''), [OutItem None]) \<and>
   StreamExport exampleDB [OutItem None] (zeroOptions\<lparr>Type := ''items'', DatasetID := 1\<rparr>) =
     Some (Some (ErrUnknownExportType ''items''), [OutItem None]) \<and>
   StreamExport exampleDB [OutItem None] (zeroOptions\<lparr>Type := ''items_with_meta''\<rparr>) =
     Some (Some (ErrUnknownExportType ''items_with_meta''), [OutItem None])"
proof -
  have g2: "GetDataset exampleDB 2 = Inr \<lparr>d_id = 2, d_kind = ''Items''\<rparr>" by code_simp
  have k2: "EqualFold_items ''Items''" by code_simp
  have g1: "GetDataset exampleDB 1 = Inr \<lparr>d_id = 1, d_kind = ''conversations''\<rparr>" by code_simp
  have k1: "\<not> EqualFold_items ''conversations''" by code_simp
  have a: "StreamExport exampleDB [OutItem None]
      (zeroOptions\<lparr>Type := ''conversations'', DatasetID := 2\<rparr>) =
     Some (Some (ErrUnknownItemsExportType ''conversations''), [OutItem None])"
    using illegal_type_rejected [of "zeroOptions\<lparr>Type := ''conversations'', DatasetID := 2\<rparr>"
        exampleDB "\<lparr>d_id = 2, d_kind = ''Items''\<rparr>" "[OutItem None]"] g2 k2
    by simp
  have b: "StreamExport exampleDB [OutItem None] (zeroOptions\<lparr>Type := ''items'', DatasetID := 1\<rparr>) =
     Some (Some (ErrUnknownExportType ''items''), [OutItem None])"
    using illegal_type_rejected [of "zeroOptions\<lparr>Type := ''items'', DatasetID := 1\<rparr>"
        exampleDB "\<lparr>d_id = 1, d_kind = ''conversations''\<rparr>" "[OutItem None]"] g1 k1
    by simp
  have c: "StreamExport exampleDB [OutItem None] (zeroOptions\<lparr>Type := ''items_with_meta''\<rparr>) =
     Some (Some (ErrUnknownExportType ''items_with_meta''), [OutItem None])"
    using illegal_type_rejected [of "zeroOptions\<lparr>Type := ''items_with_meta''\<rparr>"
        exampleDB _ "[OutItem None]"]
    by (simp add: zeroOptions_def)
  show ?thesis using a b c by simp
qed

lemma exportRecords_withDefaults:
  "exportRecords db (fillDefaults (withDefaults opts)) = exportRecords db (fillDefaults opts)"
  by (rule exportRecords_cong)
     (auto simp add: fillDefaults_def withDefaults_def promptRef_def effectiveRoleStyle_def)

lemma exportRecords_window_zero:
  "ContextTurns opts = 0 \<Longrightarrow>
   exportRecords db (fillDefaults (opts\<lparr>Context := ''window''\<rparr>)) =
   exportRecords db (fillDefaults (opts\<lparr>Context := ''full''\<rparr>))"
  by (rule exportRecords_cong)
     (simp_all add: fillDefaults_def promptRef_def effectiveRoleStyle_def)

text \<open>
  C6, amended. An export with unset fields behaves as the export with the defaults
  supplied for \<open>type\<close> (pairs), \<open>split\<close> (train), \<open>status\<close> (approved), \<open>context\<close> (none)
  and \<open>role_style\<close> (labels). The engine has no default for \<open>context_turns\<close>: an unset
  \<open>context_turns\<close> is 0, and under \<open>context = window\<close> that renders the full history,
  as \<open>context = full\<close> does.
\<close>

theorem engine_defaults:
  "StreamExport db w opts = StreamExport db w (withDefaults opts) \<and>
   (ContextTurns opts = 0 \<longrightarrow>
      StreamExport db w (opts\<lparr>Context := ''window''\<rparr>) =
      StreamExport db w (opts\<lparr>Context := ''full''\<rparr>))"
proof -
  have m: "MaxExamples (withDefaults opts) = MaxExamples opts" by (simp add: withDefaults_def)
  show ?thesis
    unfolding StreamExport_eq exportRecords_withDefaults m
    using exportRecords_window_zero [of opts db] by simp
qed

theorem engine_defaults_witness:
  "ContextTurns zeroOptions = 0 \<and>
   withDefaults zeroOptions =
     \<lparr>Type = ''pairs'', DatasetID = 0, Split = ''train'', Status = ''approved'',
      IncludeSystem = False, Context = ''none'', ContextTurns = 0, RoleStyle = ''labels'',
      MaxExamples = 0\<rparr> \<and>
   StreamExport exampleDB [] zeroOptions = StreamExport exampleDB [] (withDefaults zeroOptions) \<and>
   StreamExport longDB [] (zeroOptions\<lparr>Context := ''window''\<rparr>) =
     StreamExport longDB [] (zeroOptions\<lparr>Context := ''full''\<rparr>)"
proof -
  have h: "ContextTurns zeroOptions = 0" by (simp add: zeroOptions_def)
  have d: "withDefaults zeroOptions =
     \<lparr>Type = ''pairs'', DatasetID = 0, Split = ''train'', Status = ''approved'',
      IncludeSystem = False, Context = ''none'', ContextTurns = 0, RoleStyle = ''labels'',
      MaxExamples = 0\<rparr>"
    by (simp add: withDefaults_def zeroOptions_def)
  show ?thesis
    using engine_defaults [of exampleDB "[]" zeroOptions, THEN conjunct1]
      engine_defaults [of longDB "[]" zeroOptions, THEN conjunct2] h d
    by simp
qed

text \<open>
  C6 as stated has \<open>context_turns\<close> default to 6. With \<open>context = window\<close> and
  \<open>context_turns\<close> unset, the prompt of the seven-turn conversation holds all seven user
  turns; with \<open>context_turns = 6\<close> it holds the last six.
\<close>

theorem engine_defaults_counterexample:
  "StreamExport longDB [] (zeroOptions\<lparr>Context := ''window''\<rparr>) =
     Some (None, [OutPair \<lparr>User =
       ''User: q1\<newline>User: q2\<newline>User: q3\<newline>User: q4\<newline>User: q5\<newline>User: q6\<newline>User: q7'',
       Assistant = ''a''\<rparr>]) \<and>
   StreamExport longDB [] (zeroOptions\<lparr>Context := ''window'', ContextTurns := 6\<rparr>) =
     Some (None, [OutPair \<lparr>User =
       ''User: q2\<newline>User: q3\<newline>User: q4\<newline>User: q5\<newline>User: q6\<newline>User: q7'',
       Assistant = ''a''\<rparr>]) \<and>
   StreamExport longDB [] (zeroOptions\<lparr>Context := ''window''\<rparr>) \<noteq>
     StreamExport longDB [] (zeroOptions\<lparr>Context := ''window'', ContextTurns := 6\<rparr>)"
proof -
  have a: "StreamExport longDB [] (zeroOptions\<lparr>Context := ''window''\<rparr>) =
     Some (None, [OutPair \<lparr>User =
       ''User: q1\<newline>User: q2\<newline>User: q3\<newline>User: q4\<newline>User: q5\<newline>User: q6\<newline>User: q7'',
       Assistant = ''a''\<rparr>])"
    by code_simp
  have b: "StreamExport longDB [] (zeroOptions\<lparr>Context := ''window'', ContextTurns := 6\<rparr>) =
     Some (None, [OutPair \<lparr>User =
       ''User: q2\<newline>User: q3\<newline>User: q4\<newline>User: q5\<newline>User: q6\<newline>User: q7'',
       Assistant = ''a''\<rparr>])"
    by code_simp
  show ?thesis unfolding a b by simp
qed

end
